theory Spec2Isabelle
  imports Complex_Main "HOL-Library.Sublist"
begin

section \<open>Text: the string operations the cleaning script relies on\<close>

text \<open>
  A Python string is modelled as a HOL \<open>string\<close>.  The model is exact for ASCII
  text: a character above 127 is treated as neither whitespace nor cased.

  \<open>is_space\<close> is the whitespace test that \<^verbatim>\<open>str.strip()\<close> and the regular
  expression class \<^verbatim>\<open>\s\<close> share (for ASCII: tab, line feed, vertical tab, form
  feed, carriage return, the four separators 28 to 31, and space).
\<close>

definition is_space :: "char \<Rightarrow> bool" where
  "is_space c = (of_char c \<in> {9, 10, 11, 12, 13, 28, 29, 30, 31, 32 :: nat})"

definition is_digit :: "char \<Rightarrow> bool" where
  "is_digit c = (48 \<le> (of_char c :: nat) \<and> (of_char c :: nat) \<le> 57)"

definition lower_char :: "char \<Rightarrow> char" where
  "lower_char c =
     (if 65 \<le> (of_char c :: nat) \<and> (of_char c :: nat) \<le> 90
      then char_of ((of_char c :: nat) + 32) else c)"

text \<open>\<^verbatim>\<open>s.lower()\<close>\<close>

definition lower :: "string \<Rightarrow> string" where
  "lower s = map lower_char s"

text \<open>\<^verbatim>\<open>s.strip()\<close>: whitespace is removed at both ends.\<close>

definition strip :: "string \<Rightarrow> string" where
  "strip s = rev (dropWhile is_space (rev (dropWhile is_space s)))"

text \<open>
  \<^verbatim>\<open>re.sub(r"\s+", "_", s)\<close>: every maximal run of whitespace becomes one
  underscore.
\<close>

function sub_spaces :: "string \<Rightarrow> string" where
  "sub_spaces [] = []"
| "sub_spaces (c # cs) =
     (if is_space c then CHR ''_'' # sub_spaces (dropWhile is_space cs)
      else c # sub_spaces cs)"
  by pat_completeness auto
termination
  by (relation "measure length") (auto simp: less_Suc_eq_le length_dropWhile_le)

text \<open>
  The renaming function of \<^verbatim>\<open>clean_column_names\<close>:
  \<^verbatim>\<open>lambda c: re.sub(r"\s+", "_", c.strip().lower())\<close>
\<close>

definition canonical_name :: "string \<Rightarrow> string" where
  "canonical_name c = sub_spaces (lower (strip c))"

text \<open>
  \<^verbatim>\<open>re.sub(r"[^0-9.\-]", "", s)\<close>: only digits, the dot and the minus sign are
  kept.
\<close>

definition numeric_char :: "char \<Rightarrow> bool" where
  "numeric_char c = (is_digit c \<or> c = CHR ''.'' \<or> c = CHR ''-'')"

definition remove_noise :: "string \<Rightarrow> string" where
  "remove_noise s = filter numeric_char s"

section \<open>Tables: the part of pandas the script uses\<close>

text \<open>
  A cell is a text, a float, an integer or missing.  \<open>Missing\<close> stands for the three
  markers pandas treats alike in \<^verbatim>\<open>isna\<close>, \<^verbatim>\<open>fillna\<close> and
  \<^verbatim>\<open>to_numeric\<close>: \<^verbatim>\<open>NaN\<close> (what \<^verbatim>\<open>read_csv\<close> leaves in an
  empty field), \<^verbatim>\<open>None\<close> and \<^verbatim>\<open>pd.NA\<close>.  Its text form is that of
  \<^verbatim>\<open>NaN\<close>, the only marker that reaches \<^verbatim>\<open>astype(str)\<close> in a table read
  by \<^verbatim>\<open>load_data\<close>.

  Numbers are exact rationals: rounding, overflow and the infinities of IEEE doubles are
  outside the model, and so is the choice pandas makes between \<^verbatim>\<open>int64\<close> and
  \<^verbatim>\<open>float64\<close> for the result of \<^verbatim>\<open>to_numeric\<close> (both hold the same
  numbers; the model writes them as floats).
\<close>

datatype cell = Text string | Float rat | Integer int | Missing

datatype dtype = Object | Float64 | Int64

record series =
  sdtype :: dtype
  svalues :: "cell list"

text \<open>
  A frame is its row labels and its columns in order.  The semantics is that of pandas 1
  and 2, where a column of texts has dtype \<^verbatim>\<open>object\<close>.
\<close>

record dataframe =
  index :: "int list"
  columns :: "(string \<times> series) list"

datatype error = KeyError string | TypeError | AttributeError | ValueError

text \<open>
  The conversions between numbers and text belong to Python and pandas, not to the
  script; they are parameters of the model.  \<open>to_float\<close> is what
  \<^verbatim>\<open>pd.to_numeric(..., errors="coerce")\<close> does to one text (\<open>None\<close> where it
  gives \<^verbatim>\<open>NaN\<close>), \<open>to_int\<close> is \<^verbatim>\<open>int(text)\<close> (\<open>None\<close> where it raises),
  \<open>float_str\<close> and \<open>int_str\<close> are \<^verbatim>\<open>str\<close> on a float and on an integer.
\<close>

record textlib =
  to_float :: "string \<Rightarrow> rat option"
  to_int :: "string \<Rightarrow> int option"
  float_str :: "rat \<Rightarrow> string"
  int_str :: "int \<Rightarrow> string"

definition and_then :: "error + 'a \<Rightarrow> ('a \<Rightarrow> error + 'b) \<Rightarrow> error + 'b" where
  "and_then x f = (case x of Inl e \<Rightarrow> Inl e | Inr a \<Rightarrow> f a)"

text \<open>The first error of an elementwise operation is the one raised.\<close>

fun collect :: "(error + 'a) list \<Rightarrow> error + 'a list" where
  "collect [] = Inr []"
| "collect (x # xs) =
     (case x of Inl e \<Rightarrow> Inl e
      | Inr a \<Rightarrow> (case collect xs of Inl e \<Rightarrow> Inl e | Inr as \<Rightarrow> Inr (a # as)))"

definition column_names :: "dataframe \<Rightarrow> string list" where
  "column_names df = map fst (columns df)"

definition nrows :: "dataframe \<Rightarrow> nat" where
  "nrows df = length (index df)"

text \<open>
  What pandas maintains for every frame the script sees after renaming: column names are
  distinct and every column has one cell per row label.
\<close>

definition wf_frame :: "dataframe \<Rightarrow> bool" where
  "wf_frame df =
     (distinct (column_names df) \<and>
      list_all (\<lambda>(n, s). length (svalues s) = nrows df) (columns df))"

text \<open>\<^verbatim>\<open>df[c]\<close> on a frame with distinct names: the column, or \<^verbatim>\<open>KeyError\<close>.\<close>

definition getitem :: "dataframe \<Rightarrow> string \<Rightarrow> error + series" where
  "getitem df c =
     (case map_of (columns df) c of None \<Rightarrow> Inl (KeyError c) | Some s \<Rightarrow> Inr s)"

text \<open>
  \<^verbatim>\<open>df[c] = s\<close>: an existing column is replaced where it stands, a new one is added
  last.
\<close>

definition setitem :: "dataframe \<Rightarrow> string \<Rightarrow> series \<Rightarrow> dataframe" where
  "setitem df c s =
     df\<lparr>columns :=
       (if c \<in> set (column_names df)
        then map (\<lambda>(n, x). if n = c then (n, s) else (n, x)) (columns df)
        else columns df @ [(c, s)])\<rparr>"

text \<open>\<^verbatim>\<open>df.rename(columns=f)\<close>\<close>

definition rename :: "(string \<Rightarrow> string) \<Rightarrow> dataframe \<Rightarrow> dataframe" where
  "rename f df = df\<lparr>columns := map (\<lambda>(n, s). (f n, s)) (columns df)\<rparr>"

text \<open>\<^verbatim>\<open>str(x)\<close> for a cell, and \<^verbatim>\<open>series.astype(str)\<close>.\<close>

fun py_str :: "textlib \<Rightarrow> cell \<Rightarrow> string" where
  "py_str L (Text t) = t"
| "py_str L (Float r) = float_str L r"
| "py_str L (Integer i) = int_str L i"
| "py_str L Missing = ''nan''"

definition astype_str :: "textlib \<Rightarrow> series \<Rightarrow> string list" where
  "astype_str L s = map (py_str L) (svalues s)"

text \<open>A column of texts, as \<^verbatim>\<open>.str.strip()\<close> and its like return it.\<close>

definition text_series :: "string list \<Rightarrow> series" where
  "text_series ts = \<lparr>sdtype = Object, svalues = map Text ts\<rparr>"

text \<open>\<^verbatim>\<open>series.isna()\<close>, \<^verbatim>\<open>series.notna()\<close>, and the operators on masks.\<close>

definition isna :: "series \<Rightarrow> bool list" where
  "isna s = map (\<lambda>c. c = Missing) (svalues s)"

definition notna :: "series \<Rightarrow> bool list" where
  "notna s = map (\<lambda>c. c \<noteq> Missing) (svalues s)"

definition mask_and :: "bool list \<Rightarrow> bool list \<Rightarrow> bool list" where
  "mask_and a b = map2 (\<and>) a b"

definition mask_not :: "bool list \<Rightarrow> bool list" where
  "mask_not a = map Not a"

text \<open>
  \<^verbatim>\<open>series.fillna(v)\<close>: a \<^verbatim>\<open>float64\<close> column stores an integer filler as a
  float.
\<close>

fun as_float :: "cell \<Rightarrow> cell" where
  "as_float (Integer i) = Float (of_int i)"
| "as_float c = c"

definition fillna :: "cell \<Rightarrow> series \<Rightarrow> series" where
  "fillna v s =
     s\<lparr>svalues :=
       map (\<lambda>c. if c = Missing then (if sdtype s = Float64 then as_float v else v) else c)
         (svalues s)\<rparr>"

text \<open>
  \<^verbatim>\<open>series.astype(int)\<close>: a float is truncated towards zero, a text goes through
  \<^verbatim>\<open>int()\<close>, a missing value cannot be converted.
\<close>

definition trunc :: "rat \<Rightarrow> int" where
  "trunc r = (if 0 \<le> r then \<lfloor>r\<rfloor> else \<lceil>r\<rceil>)"

fun int_of_cell :: "textlib \<Rightarrow> cell \<Rightarrow> error + int" where
  "int_of_cell L (Float r) = Inr (trunc r)"
| "int_of_cell L (Integer i) = Inr i"
| "int_of_cell L (Text t) = (case to_int L t of None \<Rightarrow> Inl ValueError | Some i \<Rightarrow> Inr i)"
| "int_of_cell L Missing = Inl ValueError"

definition astype_int :: "textlib \<Rightarrow> series \<Rightarrow> error + series" where
  "astype_int L s =
     and_then (collect (map (int_of_cell L) (svalues s)))
       (\<lambda>is. Inr \<lparr>sdtype = Int64, svalues = map Integer is\<rparr>)"

text \<open>
  \<^verbatim>\<open>series.median()\<close>: missing values are skipped; the values are sorted and the
  middle one is taken, or the mean of the two middle ones; with no value the result is
  \<^verbatim>\<open>NaN\<close>.
\<close>

definition median :: "rat list \<Rightarrow> rat option" where
  "median xs =
     (let ys = sort xs; n = length ys in
      if n = 0 then None
      else if odd n then Some (ys ! (n div 2))
      else Some ((ys ! (n div 2 - 1) + ys ! (n div 2)) / 2))"

fun number_of :: "cell \<Rightarrow> rat option" where
  "number_of (Float r) = Some r"
| "number_of (Integer i) = Some (of_int i)"
| "number_of c = None"

fun is_text :: "cell \<Rightarrow> bool" where
  "is_text (Text t) = True"
| "is_text c = False"

definition numbers :: "series \<Rightarrow> rat list" where
  "numbers s = List.map_filter number_of (svalues s)"

definition median_series :: "series \<Rightarrow> error + cell" where
  "median_series s =
     (if list_ex is_text (svalues s) then Inl TypeError
      else Inr (case median (numbers s) of None \<Rightarrow> Missing | Some m \<Rightarrow> Float m))"

text \<open>
  \<^verbatim>\<open>series > 0\<close>: a text cannot be compared with a number; a missing value
  compares false.
\<close>

fun positive :: "cell \<Rightarrow> error + bool" where
  "positive (Float r) = Inr (0 < r)"
| "positive (Integer i) = Inr (0 < i)"
| "positive Missing = Inr False"
| "positive (Text t) = Inl TypeError"

definition gt_zero :: "series \<Rightarrow> error + bool list" where
  "gt_zero s = collect (map positive (svalues s))"

text \<open>
  \<^verbatim>\<open>series.str.strip()\<close>: the accessor exists for an \<^verbatim>\<open>object\<close> column that
  holds a text or no number at all, and raises \<^verbatim>\<open>AttributeError\<close> otherwise; a cell
  that is not a text gives \<^verbatim>\<open>NaN\<close>.
\<close>

fun str_strip_cell :: "cell \<Rightarrow> cell" where
  "str_strip_cell (Text t) = Text (strip t)"
| "str_strip_cell c = Missing"

definition str_strip :: "series \<Rightarrow> error + series" where
  "str_strip s =
     (if sdtype s = Object \<and>
         (list_ex is_text (svalues s) \<or> \<not> list_ex (\<lambda>c. number_of c \<noteq> None) (svalues s))
      then Inr \<lparr>sdtype = Object, svalues = map str_strip_cell (svalues s)\<rparr>
      else Inl AttributeError)"

text \<open>\<^verbatim>\<open>series != ""\<close>\<close>

definition ne_empty :: "series \<Rightarrow> bool list" where
  "ne_empty s = map (\<lambda>c. c \<noteq> Text []) (svalues s)"

text \<open>
  \<^verbatim>\<open>df[mask]\<close>: the rows whose mask entry is true, in order, with their labels;
  \<^verbatim>\<open>df.reset_index(drop=True)\<close>: the labels become 0, 1, 2, ...
\<close>

definition pick :: "bool list \<Rightarrow> 'a list \<Rightarrow> 'a list" where
  "pick m xs = map snd (filter fst (zip m xs))"

definition bool_index :: "dataframe \<Rightarrow> bool list \<Rightarrow> dataframe" where
  "bool_index df m =
     \<lparr>index = pick m (index df),
      columns = map (\<lambda>(n, s). (n, s\<lparr>svalues := pick m (svalues s)\<rparr>)) (columns df)\<rparr>"

definition reset_index :: "dataframe \<Rightarrow> dataframe" where
  "reset_index df = df\<lparr>index := map int [0 ..< nrows df]\<rparr>"

text \<open>\<^verbatim>\<open>df[c] = pd.NA\<close> writes the marker into every row.\<close>

definition na_column :: "dataframe \<Rightarrow> series" where
  "na_column df = \<lparr>sdtype = Object, svalues = replicate (nrows df) Missing\<rparr>"

section \<open>The cleaning script\<close>

subsection \<open>\<^verbatim>\<open>clean_column_names\<close>\<close>

text \<open>
  \<^verbatim>\<open>
  df = df.rename(columns=lambda c: re.sub(r"\s+", "_", c.strip().lower()))
  for col in df.columns:
      if df[col].dtype == object:
          df[col] = df[col].astype(str).str.strip()
  return df
  \<close>
  When two names have become equal, \<^verbatim>\<open>df[col]\<close> is a frame, which has no
  attribute \<^verbatim>\<open>dtype\<close>: the loop raises \<^verbatim>\<open>AttributeError\<close> at such a name, and
  it visits every name.
\<close>

fun for_each :: "('a \<Rightarrow> 's \<Rightarrow> error + 's) \<Rightarrow> 'a list \<Rightarrow> 's \<Rightarrow> error + 's" where
  "for_each f [] s = Inr s"
| "for_each f (x # xs) s = and_then (f x s) (for_each f xs)"

definition strip_column :: "textlib \<Rightarrow> string \<Rightarrow> dataframe \<Rightarrow> error + dataframe" where
  "strip_column L col df =
     and_then (getitem df col) (\<lambda>s.
       if sdtype s = Object
       then Inr (setitem df col (text_series (map strip (astype_str L s))))
       else Inr df)"

definition clean_column_names :: "textlib \<Rightarrow> dataframe \<Rightarrow> error + dataframe" where
  "clean_column_names L df0 =
     (let df = rename canonical_name df0 in
      if distinct (column_names df)
      then for_each (strip_column L) (column_names df) df
      else Inl AttributeError)"

subsection \<open>\<^verbatim>\<open>_to_numeric_clean\<close>\<close>

text \<open>
  \<^verbatim>\<open>
  s = series.astype(str).str.strip()
  if remove_currency:
      s = s.str.replace(r"[^0-9.\-]", "", regex=True)
  s = s.replace({"": None, "nan": None, "None": None, "N/A": None, "NA": None})
  return pd.to_numeric(s, errors="coerce")
  \<close>
\<close>

definition sentinels :: "string list" where
  "sentinels = ['''', ''nan'', ''None'', ''N/A'', ''NA'']"

definition replace_sentinels :: "string list \<Rightarrow> string option list" where
  "replace_sentinels ts = map (\<lambda>t. if t \<in> set sentinels then None else Some t) ts"

definition numeric_cell :: "textlib \<Rightarrow> string option \<Rightarrow> cell" where
  "numeric_cell L x =
     (case x of None \<Rightarrow> Missing
      | Some t \<Rightarrow> (case to_float L t of None \<Rightarrow> Missing | Some r \<Rightarrow> Float r))"

definition to_numeric :: "textlib \<Rightarrow> string option list \<Rightarrow> series" where
  "to_numeric L xs = \<lparr>sdtype = Float64, svalues = map (numeric_cell L) xs\<rparr>"

definition to_numeric_clean :: "textlib \<Rightarrow> series \<Rightarrow> bool \<Rightarrow> series" where
  "to_numeric_clean L series remove_currency =
     (let s = map strip (astype_str L series);
          s = (if remove_currency then map remove_noise s else s)
      in to_numeric L (replace_sentinels s))"

subsection \<open>\<^verbatim>\<open>handle_missing_values\<close>\<close>

text \<open>
  The function never rebinds its parameter: each of its statements assigns a column of
  the frame that the caller passed, and the frame returned is that same object.  The body
  is therefore a list of steps on the content of one object; a step that raises leaves
  the object as the steps before it made it.

  \<^verbatim>\<open>
  if "price" in df.columns:
      df["price"] = _to_numeric_clean(df["price"], remove_currency=True)
  else:
      df["price"] = pd.NA
  \<close>
  and the same for \<^verbatim>\<open>quantity\<close> with \<^verbatim>\<open>remove_currency=False\<close>:
\<close>

definition coerce_column :: "textlib \<Rightarrow> string \<Rightarrow> bool \<Rightarrow> dataframe \<Rightarrow> error + dataframe" where
  "coerce_column L c remove_currency df =
     (if c \<in> set (column_names df)
      then and_then (getitem df c) (\<lambda>s.
             Inr (setitem df c (to_numeric_clean L s remove_currency)))
      else Inr (setitem df c (na_column df)))"

text \<open>\<^verbatim>\<open>df["quantity"] = df["quantity"].fillna(1).astype(int)\<close>\<close>

definition fill_quantity :: "textlib \<Rightarrow> dataframe \<Rightarrow> error + dataframe" where
  "fill_quantity L df =
     and_then (getitem df ''quantity'') (\<lambda>q.
     and_then (astype_int L (fillna (Integer 1) q)) (\<lambda>q'.
       Inr (setitem df ''quantity'' q')))"

text \<open>
  \<^verbatim>\<open>
  if df["price"].notna().any():
      median_price = df["price"].median()
      df["price"] = df["price"].fillna(median_price)
  else:
      df["price"] = df["price"].fillna(0.0)
  \<close>
\<close>

definition fill_price :: "dataframe \<Rightarrow> error + dataframe" where
  "fill_price df =
     and_then (getitem df ''price'') (\<lambda>p.
       if True \<in> set (notna p)
       then and_then (median_series p) (\<lambda>median_price.
              Inr (setitem df ''price'' (fillna median_price p)))
       else Inr (setitem df ''price'' (fillna (Float 0) p)))"

definition handle_missing_values_steps :: "textlib \<Rightarrow> (dataframe \<Rightarrow> error + dataframe) list" where
  "handle_missing_values_steps L =
     [coerce_column L ''price'' True,
      coerce_column L ''quantity'' False,
      fill_quantity L,
      fill_price]"

text \<open>
  Running steps on one object: the outcome (the error raised, if any) and the content of
  the object when control leaves the function.
\<close>

fun in_place :: "('s \<Rightarrow> error + 's) list \<Rightarrow> 's \<Rightarrow> error option \<times> 's" where
  "in_place [] d = (None, d)"
| "in_place (f # fs) d = (case f d of Inl e \<Rightarrow> (Some e, d) | Inr d' \<Rightarrow> in_place fs d')"

text \<open>The value the call returns: the frame as the last step left it.\<close>

definition handle_missing_values :: "textlib \<Rightarrow> dataframe \<Rightarrow> error + dataframe" where
  "handle_missing_values L df =
     (case in_place (handle_missing_values_steps L) df of
        (None, d) \<Rightarrow> Inr d
      | (Some e, d) \<Rightarrow> Inl e)"



subsection \<open>\<^verbatim>\<open>remove_invalid_rows\<close>\<close>

text \<open>
  \<^verbatim>\<open>
  df = df[df["price"].notna() & df["quantity"].notna()].copy()
  df = df[(df["price"] > 0) & (df["quantity"] > 0)]
  if "product" in df.columns:
      df = df[~df["product"].isna() & (df["product"].str.strip() != "")]
  return df.reset_index(drop=True)
  \<close>
  Every statement builds a new frame; the caller's frame is only read.
\<close>

definition remove_invalid_rows :: "dataframe \<Rightarrow> error + dataframe" where
  "remove_invalid_rows df0 =
     and_then (getitem df0 ''price'') (\<lambda>p.
     and_then (getitem df0 ''quantity'') (\<lambda>q.
     let df = bool_index df0 (mask_and (notna p) (notna q)) in
     and_then (getitem df ''price'') (\<lambda>p.
     and_then (gt_zero p) (\<lambda>p_pos.
     and_then (getitem df ''quantity'') (\<lambda>q.
     and_then (gt_zero q) (\<lambda>q_pos.
     let df = bool_index df (mask_and p_pos q_pos) in
     and_then
       (if ''product'' \<in> set (column_names df)
        then and_then (getitem df ''product'') (\<lambda>pr.
             and_then (str_strip pr) (\<lambda>stripped.
               Inr (bool_index df (mask_and (mask_not (isna pr)) (ne_empty stripped)))))
        else Inr df)
       (\<lambda>df. Inr (reset_index df))))))))"

subsection \<open>The script's main block\<close>

text \<open>
  \<^verbatim>\<open>
  df_clean = clean_column_names(df_raw)
  df_clean = handle_missing_values(df_clean)
  df_clean = remove_invalid_rows(df_clean)
  \<close>
\<close>

definition pipeline :: "textlib \<Rightarrow> dataframe \<Rightarrow> error + dataframe" where
  "pipeline L df_raw =
     and_then (clean_column_names L df_raw) (\<lambda>df.
     and_then (handle_missing_values L df) remove_invalid_rows)"

section \<open>Plain decimal numerals\<close>

text \<open>
  An instance of \<open>to_float\<close> for evaluating the script on concrete tables: an optional
  sign, digits, and an optional dot followed by digits, with at least one digit.
  \<^verbatim>\<open>pd.to_numeric\<close> reads each such text as the number computed here.
\<close>

definition digit_value :: "char \<Rightarrow> nat" where
  "digit_value c = of_char c - 48"

definition digits_value :: "string \<Rightarrow> nat" where
  "digits_value ds = foldl (\<lambda>n c. 10 * n + digit_value c) 0 ds"

definition unsigned_decimal :: "string \<Rightarrow> rat option" where
  "unsigned_decimal u =
     (let whole = takeWhile is_digit u;
          rest = dropWhile is_digit u;
          frac = (case rest of [] \<Rightarrow> [] | c # cs \<Rightarrow> cs)
      in if (rest = [] \<or> (hd rest = CHR ''.'' \<and> list_all is_digit frac)) \<and>
            (whole \<noteq> [] \<or> frac \<noteq> [])
         then Some (of_nat (digits_value (whole @ frac)) / 10 ^ length frac)
         else None)"

definition decimal :: "string \<Rightarrow> rat option" where
  "decimal t =
     (case t of
        [] \<Rightarrow> None
      | c # cs \<Rightarrow>
          if c = CHR ''-'' then map_option uminus (unsigned_decimal cs)
          else if c = CHR ''+'' then unsigned_decimal cs
          else unsigned_decimal t)"

section \<open>Notions used to state the properties\<close>

text \<open>
  The column that the first statements of \<^verbatim>\<open>handle_missing_values\<close> assign under the
  name \<open>c\<close>: the cleaned column, or the column of markers when the frame has none.
\<close>

definition coerced :: "textlib \<Rightarrow> dataframe \<Rightarrow> string \<Rightarrow> bool \<Rightarrow> series" where
  "coerced L df c remove_currency =
     (case getitem df c of
        Inr s \<Rightarrow> to_numeric_clean L s remove_currency
      | Inl e \<Rightarrow> na_column df)"

text \<open>
  The rows of a frame, each as the list of its cells under their column names, and the
  conditions of \<^verbatim>\<open>remove_invalid_rows\<close> read row by row: price and quantity present and
  positive, and, where the row has a product cell, a product that is present and, when it
  is a text, not empty once stripped.
\<close>

definition row :: "dataframe \<Rightarrow> nat \<Rightarrow> (string \<times> cell) list" where
  "row df i = map (\<lambda>(n, s). (n, svalues s ! i)) (columns df)"

definition rows :: "dataframe \<Rightarrow> (string \<times> cell) list list" where
  "rows df = map (row df) [0 ..< nrows df]"

fun cell_positive :: "cell \<Rightarrow> bool" where
  "cell_positive (Float r) = (0 < r)"
| "cell_positive (Integer i) = (0 < i)"
| "cell_positive c = False"

definition numbers_valid :: "(string \<times> cell) list \<Rightarrow> bool" where
  "numbers_valid r =
     (case map_of r ''price'' of
        None \<Rightarrow> False
      | Some p \<Rightarrow>
          (case map_of r ''quantity'' of
             None \<Rightarrow> False
           | Some q \<Rightarrow> cell_positive p \<and> cell_positive q))"

fun product_present :: "cell \<Rightarrow> bool" where
  "product_present (Text t) = (strip t \<noteq> [])"
| "product_present Missing = False"
| "product_present c = True"

definition product_valid :: "(string \<times> cell) list \<Rightarrow> bool" where
  "product_valid r = (case map_of r ''product'' of None \<Rightarrow> True | Some c \<Rightarrow> product_present c)"

definition valid_row :: "(string \<times> cell) list \<Rightarrow> bool" where
  "valid_row r = (numbers_valid r \<and> product_valid r)"

section \<open>Example tables\<close>

definition messy_example :: dataframe where
  "messy_example =
     \<lparr>index = [0, 1],
      columns =
        [('' Product  Name '', \<lparr>sdtype = Object, svalues = [Text ''  Widget '', Missing]\<rparr>),
         (''Units'', \<lparr>sdtype = Int64, svalues = [Integer 3, Integer 4]\<rparr>)]\<rparr>"

definition stock_example :: dataframe where
  "stock_example =
     \<lparr>index = [0, 1, 2, 3],
      columns =
        [(''product'', \<lparr>sdtype = Object, svalues = [Text ''A'', Text ''B'', Text ''C'', Text ''D'']\<rparr>),
         (''price'',
          \<lparr>sdtype = Object,
           svalues = [Text ''$4.00'', Text ''N/A'', Text ''10'', Text ''abc'']\<rparr>),
         (''quantity'',
          \<lparr>sdtype = Object,
           svalues = [Text ''2.9'', Text '''', Text ''x'', Text ''-1.5'']\<rparr>)]\<rparr>"

definition unpriced_example :: dataframe where
  "unpriced_example =
     \<lparr>index = [0, 1],
      columns = [(''product'', \<lparr>sdtype = Object, svalues = [Text ''A'', Text ''B'']\<rparr>)]\<rparr>"

definition sales_example :: dataframe where
  "sales_example =
     \<lparr>index = [0, 1, 2],
      columns =
        [(''Product'',
          \<lparr>sdtype = Object, svalues = [Text '' Good'', Text ''BadPrice'', Text ''NoQty'']\<rparr>),
         (''Price'',
          \<lparr>sdtype = Object, svalues = [Text ''$10.00'', Text ''-5.00'', Text ''12.00'']\<rparr>),
         (''Quantity'',
          \<lparr>sdtype = Object, svalues = [Text ''2'', Text ''1'', Text '''']\<rparr>)]\<rparr>"

definition cleaned_example :: dataframe where
  "cleaned_example =
     \<lparr>index = [5, 7, 9, 11, 13, 15],
      columns =
        [(''product'',
          \<lparr>sdtype = Object,
           svalues = [Text ''Pen'', Text '''', Text ''Ink'', Text ''Cap'', Text '' '', Text ''Nib'']\<rparr>),
         (''price'',
          \<lparr>sdtype = Float64,
           svalues = [Float 2, Float 3, Float (- 1), Float 4, Float 1, Float 5]\<rparr>),
         (''quantity'',
          \<lparr>sdtype = Int64,
           svalues = [Integer 1, Integer 2, Integer 3, Integer 0, Integer 1, Integer 6]\<rparr>)]\<rparr>"

definition numbers_example :: dataframe where
  "numbers_example =
     \<lparr>index = [0, 1],
      columns =
        [(''price'', \<lparr>sdtype = Float64, svalues = [Float 1, Float 0]\<rparr>),
         (''quantity'', \<lparr>sdtype = Int64, svalues = [Integer 1, Integer 1]\<rparr>)]\<rparr>"

definition price_only_example :: dataframe where
  "price_only_example =
     \<lparr>index = [0, 1],
      columns = [(''price'', \<lparr>sdtype = Float64, svalues = [Float 1, Float 0]\<rparr>)]\<rparr>"

section \<open>Properties of the text operations\<close>

lemma underscore_not_space: "\<not> is_space (CHR ''_'')"
  by (simp add: is_space_def)

lemma lower_char_underscore: "lower_char (CHR ''_'') = CHR ''_''"
  by (simp add: lower_char_def)

lemma is_space_lower_char: "is_space (lower_char c) = is_space c"
  by (auto simp: is_space_def lower_char_def)

lemma lower_char_idem: "lower_char (lower_char c) = lower_char c"
  by (auto simp: lower_char_def)

lemma sub_spaces_no_space: "c \<in> set (sub_spaces s) \<Longrightarrow> \<not> is_space c"
  by (induction s rule: sub_spaces.induct) (auto simp: underscore_not_space split: if_splits)

lemma sub_spaces_chars: "c \<in> set (sub_spaces s) \<Longrightarrow> c = CHR ''_'' \<or> c \<in> set s"
  by (induction s rule: sub_spaces.induct) (auto split: if_splits dest: set_dropWhileD)

lemma sub_spaces_id: "\<forall>c \<in> set s. \<not> is_space c \<Longrightarrow> sub_spaces s = s"
  by (induction s) auto

lemma dropWhile_none: "\<forall>c \<in> set s. \<not> P c \<Longrightarrow> dropWhile P s = s"
  by (cases s) auto

lemma strip_id: "\<forall>c \<in> set s. \<not> is_space c \<Longrightarrow> strip s = s"
  by (simp add: strip_def dropWhile_none)

lemma lower_id: "\<forall>c \<in> set s. lower_char c = c \<Longrightarrow> lower s = s"
  by (simp add: lower_def map_idI)

lemma canonical_name_idem: "canonical_name (canonical_name c) = canonical_name c"
proof -
  let ?t = "canonical_name c"
  have ns: "\<forall>x \<in> set ?t. \<not> is_space x"
    by (auto simp: canonical_name_def dest: sub_spaces_no_space)
  have lw: "\<forall>x \<in> set ?t. lower_char x = x"
    by (auto simp: canonical_name_def lower_def lower_char_underscore lower_char_idem
        dest!: sub_spaces_chars)
  have "strip ?t = ?t" using ns by (rule strip_id)
  moreover have "lower ?t = ?t" using lw by (rule lower_id)
  moreover have "sub_spaces ?t = ?t" using ns by (rule sub_spaces_id)
  ultimately show ?thesis by (simp add: canonical_name_def[of ?t])
qed


section \<open>Properties of \<^verbatim>\<open>clean_column_names\<close>\<close>

lemma and_then_Inr [simp]: "and_then (Inr a) f = f a"
  by (simp add: and_then_def)

lemma and_then_Inl [simp]: "and_then (Inl e) f = Inl e"
  by (simp add: and_then_def)

lemma and_then_eq_Inr: "and_then x f = Inr b \<longleftrightarrow> (\<exists>a. x = Inr a \<and> f a = Inr b)"
  by (cases x) auto

lemma column_names_setitem:
  "c \<in> set (column_names df) \<Longrightarrow> column_names (setitem df c s) = column_names df"
  by (auto simp: column_names_def setitem_def split: prod.splits)

lemma getitem_present:
  "c \<in> set (column_names df) \<Longrightarrow> \<exists>s. getitem df c = Inr s \<and> (c, s) \<in> set (columns df)"
  by (cases "map_of (columns df) c")
    (auto simp: getitem_def column_names_def map_of_eq_None_iff dest: map_of_SomeD)

lemma getitem_Inr_iff:
  "distinct (column_names df) \<Longrightarrow> getitem df c = Inr s \<longleftrightarrow> (c, s) \<in> set (columns df)"
  using map_of_eq_Some_iff[of "columns df" c s]
  by (auto simp: getitem_def column_names_def split: option.splits dest: eq_key_imp_eq_value)

lemma setitem_present:
  assumes "distinct (column_names df)" and "(c, s) \<in> set (columns df)"
  shows "setitem df c (g s) =
         df\<lparr>columns := map (\<lambda>(n, x). (n, if n = c then g x else x)) (columns df)\<rparr>"
proof -
  have in_names: "c \<in> set (column_names df)"
    using assms(2) by (force simp: column_names_def)
  have "map (\<lambda>(n, x). if n = c then (n, g s) else (n, x)) (columns df) =
        map (\<lambda>(n, x). (n, if n = c then g x else x)) (columns df)"
  proof (rule map_cong[OF refl])
    fix p assume p: "p \<in> set (columns df)"
    obtain n x where [simp]: "p = (n, x)" by (cases p)
    have "n = c \<Longrightarrow> x = s"
      using assms p by (auto simp: column_names_def dest: eq_key_imp_eq_value)
    then show "(case p of (n, x) \<Rightarrow> if n = c then (n, g s) else (n, x)) =
               (case p of (n, x) \<Rightarrow> (n, if n = c then g x else x))"
      by auto
  qed
  then show ?thesis using in_names by (simp add: setitem_def)
qed

lemma for_each_strip_column:
  fixes L :: textlib
  defines "G \<equiv> \<lambda>s. if sdtype s = Object then text_series (map strip (astype_str L s)) else s"
  assumes "distinct (column_names df)" and "distinct ns" and "set ns \<subseteq> set (column_names df)"
  shows "for_each (strip_column L) ns df =
         Inr (df\<lparr>columns := map (\<lambda>(n, s). (n, if n \<in> set ns then G s else s)) (columns df)\<rparr>)"
  using assms(2-)
proof (induction ns arbitrary: df)
  case Nil
  then show ?case by (simp add: case_prod_unfold)
next
  case (Cons c ns)
  let ?d = "df\<lparr>columns := map (\<lambda>(n, x). (n, if n = c then G x else x)) (columns df)\<rparr>"
  from Cons.prems obtain s where s: "getitem df c = Inr s" "(c, s) \<in> set (columns df)"
    using getitem_present[of c df] by auto
  have step: "strip_column L c df = Inr ?d"
  proof (cases "sdtype s = Object")
    case True
    then have "strip_column L c df = Inr (setitem df c (G s))"
      using s by (simp add: strip_column_def G_def)
    then show ?thesis using setitem_present[OF Cons.prems(1) s(2), of G] by simp
  next
    case False
    have "map (\<lambda>(n, x). (n, if n = c then G x else x)) (columns df) = columns df"
    proof (rule map_idI)
      fix p assume p: "p \<in> set (columns df)"
      obtain n x where [simp]: "p = (n, x)" by (cases p)
      have "n = c \<Longrightarrow> x = s"
        using Cons.prems(1) p s(2) by (auto simp: column_names_def dest: eq_key_imp_eq_value)
      then show "(case p of (n, x) \<Rightarrow> (n, if n = c then G x else x)) = p"
        using False by (auto simp: G_def)
    qed
    then have "?d = df" by simp
    then show ?thesis using s False by (simp add: strip_column_def)
  qed
  have names: "column_names ?d = column_names df"
    by (simp add: column_names_def case_prod_unfold comp_def)
  have "for_each (strip_column L) ns ?d =
        Inr (?d\<lparr>columns := map (\<lambda>(n, s). (n, if n \<in> set ns then G s else s)) (columns ?d)\<rparr>)"
    using Cons.prems by (intro Cons.IH) (auto simp: names)
  moreover have "map (\<lambda>(n, s). (n, if n \<in> set ns then G s else s)) (columns ?d) =
                 map (\<lambda>(n, s). (n, if n \<in> set (c # ns) then G s else s)) (columns df)"
    using Cons.prems(2) by (auto simp: case_prod_unfold)
  ultimately show ?case using step by simp
qed

lemma clean_column_names_eq:
  "clean_column_names L df =
     (if distinct (map canonical_name (column_names df))
      then Inr \<lparr>index = index df,
                columns = map (\<lambda>(n, s). (canonical_name n,
                   if sdtype s = Object
                   then \<lparr>sdtype = Object, svalues = map (\<lambda>c. Text (strip (py_str L c))) (svalues s)\<rparr>
                   else s)) (columns df)\<rparr>
      else Inl AttributeError)"
proof -
  let ?d = "rename canonical_name df"
  have names: "column_names ?d = map canonical_name (column_names df)"
    by (simp add: rename_def column_names_def case_prod_unfold comp_def)
  show ?thesis
  proof (cases "distinct (map canonical_name (column_names df))")
    case True
    then have "distinct (column_names ?d)" by (simp add: names)
    from for_each_strip_column[OF this, of "column_names ?d" L] this
    show ?thesis using True
      by (simp add: clean_column_names_def names Let_def)
        (simp add: rename_def column_names_def case_prod_unfold comp_def text_series_def
          astype_str_def)
  next
    case False
    then show ?thesis by (simp add: clean_column_names_def names Let_def)
  qed
qed


lemma canonical_name_example1: "canonical_name '' Product  Name '' = ''product_name''"
  by code_simp

lemma canonical_name_example2: "canonical_name ''Units'' = ''units''"
  by code_simp

lemma strip_example: "strip ''  Widget '' = ''Widget''"
  by (simp add: strip_def is_space_def)

text \<open>
  Claim C7.  When \<^verbatim>\<open>clean_column_names\<close> returns, the columns keep their places
  under their canonical names; every cell of a column of dtype \<^verbatim>\<open>object\<close> has
  first been turned into its text and then stripped of leading and trailing whitespace,
  so that a missing value has become the text \<^verbatim>\<open>nan\<close>; a column of another dtype
  is unchanged.
\<close>

theorem clean_column_names_strips_text:
  assumes "clean_column_names L df = Inr df'"
  shows "length (columns df') = length (columns df) \<and>
         (\<forall>j < length (columns df).
            fst (columns df' ! j) = canonical_name (fst (columns df ! j)) \<and>
            (sdtype (snd (columns df ! j)) = Object \<longrightarrow>
               snd (columns df' ! j) =
                 \<lparr>sdtype = Object,
                  svalues = map (\<lambda>c. Text (strip (py_str L c))) (svalues (snd (columns df ! j)))\<rparr>) \<and>
            (sdtype (snd (columns df ! j)) \<noteq> Object \<longrightarrow>
               snd (columns df' ! j) = snd (columns df ! j))) \<and>
         strip (py_str L Missing) = ''nan''"
proof -
  have nan: "strip (py_str L Missing) = ''nan''"
    by (simp add: strip_def is_space_def)
  from assms have "df' = \<lparr>index = index df,
      columns = map (\<lambda>(n, s). (canonical_name n,
         if sdtype s = Object
         then \<lparr>sdtype = Object, svalues = map (\<lambda>c. Text (strip (py_str L c))) (svalues s)\<rparr>
         else s)) (columns df)\<rparr>"
    by (simp add: clean_column_names_eq split: if_splits)
  then show ?thesis using nan by (simp add: case_prod_unfold)
qed

theorem clean_column_names_strips_text_witness:
  "\<forall>L. \<exists>df'. clean_column_names L messy_example = Inr df' \<and>
      map fst (columns df') = [''product_name'', ''units''] \<and>
      snd (columns df' ! 0) = \<lparr>sdtype = Object, svalues = [Text ''Widget'', Text ''nan'']\<rparr> \<and>
      snd (columns df' ! 1) = \<lparr>sdtype = Int64, svalues = [Integer 3, Integer 4]\<rparr>"
proof
  fix L
  have r: "\<exists>df'. clean_column_names L messy_example = Inr df'"
    by (simp add: clean_column_names_eq messy_example_def column_names_def canonical_name_example1 canonical_name_example2)
  then obtain df' where df': "clean_column_names L messy_example = Inr df'" ..
  have len: "length (columns df') = 2" and
    c0: "fst (columns df' ! 0) = ''product_name''" and
    c1: "fst (columns df' ! 1) = ''units''" and
    s0: "snd (columns df' ! 0) = \<lparr>sdtype = Object, svalues = [Text ''Widget'', Text ''nan'']\<rparr>" and
    s1: "snd (columns df' ! 1) = \<lparr>sdtype = Int64, svalues = [Integer 3, Integer 4]\<rparr>"
    using clean_column_names_strips_text[OF df']
    by (simp_all add: messy_example_def canonical_name_example1 canonical_name_example2 strip_example All_less_Suc numeral_2_eq_2)
  have "map fst (columns df') = [''product_name'', ''units'']"
    using len c0 c1 by (auto simp: list_eq_iff_nth_eq less_Suc_eq numeral_2_eq_2)
  then show "\<exists>df'. clean_column_names L messy_example = Inr df' \<and>
      map fst (columns df') = [''product_name'', ''units''] \<and>
      snd (columns df' ! 0) = \<lparr>sdtype = Object, svalues = [Text ''Widget'', Text ''nan'']\<rparr> \<and>
      snd (columns df' ! 1) = \<lparr>sdtype = Int64, svalues = [Integer 3, Integer 4]\<rparr>"
    using df' s0 s1 by (intro exI[of _ df']) simp
qed

lemma clean_column_names_names:
  assumes "clean_column_names L df = Inr df'"
  shows "column_names df' = map canonical_name (column_names df)"
    and "distinct (map canonical_name (column_names df))"
  using assms
  by (auto simp: clean_column_names_eq column_names_def case_prod_unfold comp_def
      split: if_splits)

lemma clean_column_names_returns:
  "distinct (map canonical_name (column_names df)) \<Longrightarrow> \<exists>df'. clean_column_names L df = Inr df'"
  by (simp add: clean_column_names_eq)

text \<open>
  Claim C8.  Canonicalising a column name twice gives the same name as canonicalising it
  once; hence a second run of \<^verbatim>\<open>clean_column_names\<close> on the result of a first
  one returns a frame with the same column names.
\<close>

theorem canonical_names_idempotent:
  "canonical_name (canonical_name c) = canonical_name c \<and>
   map canonical_name (map canonical_name ns) = map canonical_name ns \<and>
   (clean_column_names L df = Inr df1 \<longrightarrow>
      (\<exists>df2. clean_column_names L df1 = Inr df2 \<and> column_names df2 = column_names df1))"
proof -
  have m: "map canonical_name (map canonical_name ms) = map canonical_name ms" for ms
    by (simp add: canonical_name_idem comp_def)
  have "\<exists>df2. clean_column_names L df1 = Inr df2 \<and> column_names df2 = column_names df1"
    if a: "clean_column_names L df = Inr df1"
  proof -
    have n1: "column_names df1 = map canonical_name (column_names df)"
      and d: "distinct (map canonical_name (column_names df))"
      using clean_column_names_names[OF a] by blast+
    have same: "map canonical_name (column_names df1) = column_names df1"
      unfolding n1 by (rule m)
    have "distinct (map canonical_name (column_names df1))"
      using d by (simp only: same) (simp only: n1)
    then obtain df2 where r: "clean_column_names L df1 = Inr df2"
      using clean_column_names_returns by blast
    have "column_names df2 = column_names df1"
      using clean_column_names_names(1)[OF r] same by simp
    with r show ?thesis by blast
  qed
  then show ?thesis using m by (simp add: canonical_name_idem)
qed

theorem canonical_names_idempotent_witness:
  "canonical_name (canonical_name '' Product  Name '') = ''product_name'' \<and>
   (\<forall>L. \<exists>df1 df2. clean_column_names L messy_example = Inr df1 \<and>
      clean_column_names L df1 = Inr df2 \<and>
      column_names df2 = [''product_name'', ''units''])"
proof (intro conjI allI)
  show "canonical_name (canonical_name '' Product  Name '') = ''product_name''"
    using canonical_names_idempotent[of "'' Product  Name ''" "[]"]
    by (simp add: canonical_name_example1)
next
  fix L
  have n: "map canonical_name (column_names messy_example) = [''product_name'', ''units'']"
    by (simp add: messy_example_def column_names_def canonical_name_example1
        canonical_name_example2)
  then obtain df1 where df1: "clean_column_names L messy_example = Inr df1"
    using clean_column_names_returns[of messy_example L] by auto
  then obtain df2 where
    df2: "clean_column_names L df1 = Inr df2" "column_names df2 = column_names df1"
    using canonical_names_idempotent[of "[]" "[]" L messy_example df1] by auto
  have "column_names df1 = [''product_name'', ''units'']"
    using clean_column_names_names(1)[OF df1] n by simp
  with df1 df2 show "\<exists>df1 df2. clean_column_names L messy_example = Inr df1 \<and>
      clean_column_names L df1 = Inr df2 \<and>
      column_names df2 = [''product_name'', ''units'']"
    by (intro exI[of _ df1] exI[of _ df2]) simp
qed

section \<open>Properties of \<^verbatim>\<open>_to_numeric_clean\<close>\<close>

lemma decimal_example1: "decimal ''7.50'' = Some 7.5"
  by code_simp

lemma decimal_example2: "decimal ''12'' = Some 12"
  by code_simp

lemma strip_example1: "map strip [''N/A'', '''', ''7.50'', ''abc''] = [''N/A'', '''', ''7.50'', ''abc'']"
  by code_simp

lemma noise_example: "map remove_noise [''N/A'', '''', ''7.50'', ''abc''] = ['''', '''', ''7.50'', '''']"
  by code_simp

lemma sentinel_example: "replace_sentinels ['''', '''', ''7.50'', ''''] = [None, None, Some ''7.50'', None]"
  by code_simp

text \<open>
  Claim C4.  \<^verbatim>\<open>_to_numeric_clean\<close> has no failing path: for either flag it returns
  one cell for each input cell, in order.  The cell for an input is computed from its
  stripped text (with every character other than a digit, a dot or a minus sign deleted
  when the flag is set): missing when that text is one of the five sentinels or when the
  conversion to a float fails on it, and the float otherwise.  On the texts
  \<^verbatim>\<open>N/A\<close>, the empty text, \<^verbatim>\<open>7.50\<close> and \<^verbatim>\<open>abc\<close> with the flag set
  the result is missing, missing, 7.5, missing.
\<close>

theorem to_numeric_clean_total:
  "length (svalues (to_numeric_clean L s rc)) = length (svalues s) \<and>
   (\<forall>i < length (svalues s).
      svalues (to_numeric_clean L s rc) ! i =
        (let t = strip (py_str L (svalues s ! i));
             t = (if rc then remove_noise t else t)
         in if t \<in> {'''', ''nan'', ''None'', ''N/A'', ''NA''} then Missing
            else case to_float L t of None \<Rightarrow> Missing | Some r \<Rightarrow> Float r)) \<and>
   to_numeric_clean (L\<lparr>to_float := decimal\<rparr>)
       (text_series [''N/A'', '''', ''7.50'', ''abc'']) True =
     \<lparr>sdtype = Float64, svalues = [Missing, Missing, Float 7.5, Missing]\<rparr>"
proof (intro conjI allI impI)
  show "length (svalues (to_numeric_clean L s rc)) = length (svalues s)"
    by (simp add: to_numeric_clean_def to_numeric_def replace_sentinels_def astype_str_def Let_def)
next
  fix i assume "i < length (svalues s)"
  then show "svalues (to_numeric_clean L s rc) ! i =
        (let t = strip (py_str L (svalues s ! i));
             t = (if rc then remove_noise t else t)
         in if t \<in> {'''', ''nan'', ''None'', ''N/A'', ''NA''} then Missing
            else case to_float L t of None \<Rightarrow> Missing | Some r \<Rightarrow> Float r)"
    by (simp add: to_numeric_clean_def to_numeric_def replace_sentinels_def astype_str_def
        numeric_cell_def sentinels_def Let_def)
next
  show "to_numeric_clean (L\<lparr>to_float := decimal\<rparr>)
       (text_series [''N/A'', '''', ''7.50'', ''abc'']) True =
     \<lparr>sdtype = Float64, svalues = [Missing, Missing, Float 7.5, Missing]\<rparr>"
    by (simp add: to_numeric_clean_def to_numeric_def astype_str_def text_series_def
        strip_example1[simplified] noise_example[simplified] sentinel_example numeric_cell_def decimal_example1 Let_def)
qed


lemma strip_example2: "strip '' 12 '' = ''12''" "strip ''NA'' = ''NA''"
  by code_simp+

theorem to_numeric_clean_total_witness:
  "\<forall>L. length (svalues (to_numeric_clean (L\<lparr>to_float := decimal\<rparr>)
              (text_series ['' 12 '', ''NA'']) False)) = 2 \<and>
        svalues (to_numeric_clean (L\<lparr>to_float := decimal\<rparr>)
              (text_series ['' 12 '', ''NA'']) False) ! 0 = Float 12 \<and>
        svalues (to_numeric_clean (L\<lparr>to_float := decimal\<rparr>)
              (text_series ['' 12 '', ''NA'']) False) ! 1 = Missing"
proof
  fix L
  show "length (svalues (to_numeric_clean (L\<lparr>to_float := decimal\<rparr>)
              (text_series ['' 12 '', ''NA'']) False)) = 2 \<and>
        svalues (to_numeric_clean (L\<lparr>to_float := decimal\<rparr>)
              (text_series ['' 12 '', ''NA'']) False) ! 0 = Float 12 \<and>
        svalues (to_numeric_clean (L\<lparr>to_float := decimal\<rparr>)
              (text_series ['' 12 '', ''NA'']) False) ! 1 = Missing"
    using to_numeric_clean_total[of "L\<lparr>to_float := decimal\<rparr>"
        "text_series ['' 12 '', ''NA'']" False]
    by (simp add: text_series_def All_less_Suc numeral_2_eq_2 strip_example2 decimal_example2)
qed

section \<open>Properties of \<^verbatim>\<open>handle_missing_values\<close>\<close>

lemma wf_frame_distinct: "wf_frame df \<Longrightarrow> distinct (column_names df)"
  by (simp add: wf_frame_def)

lemma nrows_setitem [simp]: "nrows (setitem df c s) = nrows df"
  by (simp add: nrows_def setitem_def)

lemma index_setitem [simp]: "index (setitem df c s) = index df"
  by (simp add: setitem_def)

lemma column_names_setitem_eq:
  "column_names (setitem df c s) =
     (if c \<in> set (column_names df) then column_names df else column_names df @ [c])"
  by (auto simp: column_names_def setitem_def case_prod_unfold comp_def intro!: map_cong)

lemma distinct_setitem:
  "distinct (column_names df) \<Longrightarrow> distinct (column_names (setitem df c s))"
  by (simp add: column_names_setitem_eq)

lemma map_of_replace:
  "map_of (map (\<lambda>(n, x). if n = c then (n, s) else (n, x)) xs) k =
     (if k = c then (if map_of xs c = None then None else Some s) else map_of xs k)"
  by (induction xs) (auto simp: case_prod_unfold)

lemma map_of_setitem:
  "map_of (columns (setitem df c s)) k = (if k = c then Some s else map_of (columns df) k)"
proof (cases "c \<in> set (column_names df)")
  case True
  then have "map_of (columns df) c \<noteq> None"
    by (simp add: column_names_def map_of_eq_None_iff)
  then show ?thesis using True
    by (auto simp: setitem_def map_of_replace)
next
  case False
  then have "map_of (columns df) c = None"
    by (simp add: column_names_def map_of_eq_None_iff)
  then show ?thesis using False
    by (simp add: setitem_def map_add_def split: option.splits)
qed

lemma getitem_setitem:
  "getitem (setitem df c s) k = (if k = c then Inr s else getitem df k)"
  by (simp add: getitem_def map_of_setitem)

lemma getitem_absent:
  "c \<notin> set (column_names df) \<Longrightarrow> getitem df c = Inl (KeyError c)"
  by (simp add: getitem_def column_names_def map_of_eq_None_iff[THEN iffD2])

lemma getitem_Inl_iff: "getitem df c = Inl e \<longleftrightarrow> c \<notin> set (column_names df) \<and> e = KeyError c"
proof -
  have "getitem df c = Inl e \<longleftrightarrow> map_of (columns df) c = None \<and> e = KeyError c"
    by (auto simp: getitem_def split: option.splits)
  then show ?thesis by (simp add: column_names_def map_of_eq_None_iff)
qed

lemma wf_frame_getitem_length:
  "wf_frame df \<Longrightarrow> getitem df c = Inr s \<Longrightarrow> length (svalues s) = nrows df"
  by (auto simp: wf_frame_def getitem_def list_all_iff split: option.splits dest!: map_of_SomeD)

lemma wf_frame_setitem:
  assumes "wf_frame df" and "length (svalues s) = nrows df"
  shows "wf_frame (setitem df c s)"
proof -
  have "list_all (\<lambda>(n, x). length (svalues x) = nrows df) (columns (setitem df c s))"
    using assms by (auto simp: wf_frame_def setitem_def list_all_iff split: if_splits)
  then show ?thesis
    using assms(1) distinct_setitem[of df c s] by (simp add: wf_frame_def)
qed

lemma collect_map_Inr:
  "\<forall>x \<in> set xs. f x = Inr (g x) \<Longrightarrow> collect (map f xs) = Inr (map g xs)"
  by (induction xs) auto

lemma to_numeric_clean_cells:
  "c \<in> set (svalues (to_numeric_clean L s rc)) \<Longrightarrow> c = Missing \<or> (\<exists>r. c = Float r)"
  by (auto simp: to_numeric_clean_def to_numeric_def numeric_cell_def Let_def
      split: option.splits if_splits)

lemma to_numeric_clean_dtype [simp]: "sdtype (to_numeric_clean L s rc) = Float64"
  by (simp add: to_numeric_clean_def to_numeric_def Let_def)

lemma to_numeric_clean_length [simp]:
  "length (svalues (to_numeric_clean L s rc)) = length (svalues s)"
  by (simp add: to_numeric_clean_def to_numeric_def replace_sentinels_def astype_str_def Let_def)

lemma coerced_cells:
  "c \<in> set (svalues (coerced L df k rc)) \<Longrightarrow> c = Missing \<or> (\<exists>r. c = Float r)"
  by (auto simp: coerced_def na_column_def split: sum.splits dest: to_numeric_clean_cells)


lemma coerced_setitem_other:
  "k \<noteq> c \<Longrightarrow> coerced L (setitem df c s) k rc = coerced L df k rc"
  by (simp add: coerced_def getitem_setitem na_column_def split: sum.splits)

lemma coerce_column_eq:
  "coerce_column L c rc df = Inr (setitem df c (coerced L df c rc))"
proof (cases "c \<in> set (column_names df)")
  case True
  then obtain s where "getitem df c = Inr s" using getitem_present by blast
  then show ?thesis using True by (simp add: coerce_column_def coerced_def)
next
  case False
  then show ?thesis by (simp add: coerce_column_def coerced_def getitem_absent)
qed

lemma trunc_one [simp]: "trunc 1 = 1"
  by (simp add: trunc_def)

lemma astype_int_fillna:
  assumes "\<forall>c \<in> set (svalues q). c = Missing \<or> (\<exists>r. c = Float r)"
  shows "astype_int L (fillna (Integer 1) q) =
         Inr \<lparr>sdtype = Int64,
              svalues = map (\<lambda>c. case c of Float r \<Rightarrow> Integer (trunc r) | _ \<Rightarrow> Integer 1)
                          (svalues q)\<rparr>"
proof -
  let ?f = "\<lambda>c. if c = Missing then (if sdtype q = Float64 then as_float (Integer 1) else Integer 1)
                 else c"
  let ?g = "\<lambda>c. case c of Float r \<Rightarrow> trunc r | _ \<Rightarrow> 1"
  have "\<forall>c \<in> set (svalues q). int_of_cell L (?f c) = Inr (?g c)"
    using assms by auto
  then have "collect (map (\<lambda>c. int_of_cell L (?f c)) (svalues q)) = Inr (map ?g (svalues q))"
    by (rule collect_map_Inr)
  moreover have "map Integer (map ?g (svalues q)) =
      map (\<lambda>c. case c of Float r \<Rightarrow> Integer (trunc r) | _ \<Rightarrow> Integer 1) (svalues q)"
    by (simp add: cell.case_distrib comp_def cong: cell.case_cong)
  ultimately show ?thesis
    by (simp add: astype_int_def fillna_def comp_def)
qed

lemma numbers_eq_Nil_iff:
  assumes "\<forall>c \<in> set (svalues p). c = Missing \<or> (\<exists>r. c = Float r)"
  shows "numbers p = [] \<longleftrightarrow> (\<forall>c \<in> set (svalues p). c = Missing)"
proof -
  have "List.map_filter number_of cs = [] \<longleftrightarrow> (\<forall>c \<in> set cs. c = Missing)"
    if "\<forall>c \<in> set cs. c = Missing \<or> (\<exists>r. c = Float r)" for cs
    using that by (induction cs) (auto simp: List.map_filter_simps)
  then show ?thesis using assms by (simp add: numbers_def)
qed

lemma notna_any_iff: "True \<in> set (notna p) \<longleftrightarrow> (\<exists>c \<in> set (svalues p). c \<noteq> Missing)"
  by (auto simp: notna_def)

lemma median_Nil [simp]: "median [] = None"
  by (simp add: median_def)

lemma median_nonempty: "xs \<noteq> [] \<Longrightarrow> median xs \<noteq> None"
  unfolding median_def Let_def
  by (simp only: length_sort length_0_conv if_False option.simps split: if_split) simp

lemma median_eq_None_iff: "median xs = None \<longleftrightarrow> xs = []"
  by (cases "xs = []") (auto dest: median_nonempty)

lemma no_text_cells:
  "\<forall>c \<in> set cs. c = Missing \<or> (\<exists>r. c = Float r) \<Longrightarrow> \<not> list_ex is_text cs"
  by (auto simp: list_ex_iff)

lemma fill_price_eq:
  assumes g: "getitem df ''price'' = Inr p"
    and shape: "\<forall>c \<in> set (svalues p). c = Missing \<or> (\<exists>r. c = Float r)"
  shows "fill_price df =
         Inr (setitem df ''price''
           (p\<lparr>svalues :=
               (case median (numbers p) of
                  Some m \<Rightarrow> map (\<lambda>c. if c = Missing then Float m else c) (svalues p)
                | None \<Rightarrow> map (\<lambda>c. Float 0) (svalues p))\<rparr>))"
proof (cases "numbers p = []")
  case True
  then have all: "\<forall>c \<in> set (svalues p). c = Missing"
    using numbers_eq_Nil_iff[OF shape] by simp
  then have "\<not> True \<in> set (notna p)" by (simp add: notna_any_iff)
  moreover have "map (\<lambda>c. if c = Missing
                     then (if sdtype p = Float64 then as_float (Float 0) else Float 0) else c)
                   (svalues p) =
                 map (\<lambda>c. Float 0) (svalues p)"
    using all by (intro map_cong) auto
  then have "fillna (Float 0) p = p\<lparr>svalues := map (\<lambda>c. Float 0) (svalues p)\<rparr>"
    by (simp only: fillna_def)
  ultimately show ?thesis using g True
    by (simp add: fill_price_def median_eq_None_iff[THEN iffD2])
next
  case False
  then obtain m where m: "median (numbers p) = Some m"
    using median_eq_None_iff[of "numbers p"] by (cases "median (numbers p)") auto
  from False have "True \<in> set (notna p)"
    using numbers_eq_Nil_iff[OF shape] by (simp add: notna_any_iff)
  moreover have "median_series p = Inr (Float m)"
    using no_text_cells[OF shape] m by (simp add: median_series_def)
  ultimately show ?thesis using g m
    by (simp add: fill_price_def fillna_def cong: if_cong)
qed

lemma fill_quantity_eq:
  assumes g: "getitem df ''quantity'' = Inr q"
    and shape: "\<forall>c \<in> set (svalues q). c = Missing \<or> (\<exists>r. c = Float r)"
  shows "fill_quantity L df =
         Inr (setitem df ''quantity''
           \<lparr>sdtype = Int64,
            svalues = map (\<lambda>c. case c of Float r \<Rightarrow> Integer (trunc r) | _ \<Rightarrow> Integer 1)
                        (svalues q)\<rparr>)"
  using g astype_int_fillna[OF shape, of L] by (simp add: fill_quantity_def)

lemma in_place_handle_missing_values:
  fixes L :: textlib and df :: dataframe
  defines "P \<equiv> coerced L df ''price'' True"
    and "Q \<equiv> coerced L df ''quantity'' False"
  defines "Q' \<equiv> \<lparr>sdtype = Int64,
             svalues = map (\<lambda>c. case c of Float r \<Rightarrow> Integer (trunc r) | _ \<Rightarrow> Integer 1)
                         (svalues Q)\<rparr>"
    and "P' \<equiv> P\<lparr>svalues :=
               (case median (numbers P) of
                  Some m \<Rightarrow> map (\<lambda>c. if c = Missing then Float m else c) (svalues P)
                | None \<Rightarrow> map (\<lambda>c. Float 0) (svalues P))\<rparr>"
  shows "in_place (handle_missing_values_steps L) df =
         (None, setitem (setitem (setitem (setitem df ''price'' P) ''quantity'' Q)
                  ''quantity'' Q') ''price'' P')"
proof -
  let ?d1 = "setitem df ''price'' P"
  let ?d2 = "setitem ?d1 ''quantity'' Q"
  let ?d3 = "setitem ?d2 ''quantity'' Q'"
  have s1: "coerce_column L ''price'' True df = Inr ?d1"
    by (simp add: coerce_column_eq P_def)
  have s2: "coerce_column L ''quantity'' False ?d1 = Inr ?d2"
    by (simp add: coerce_column_eq Q_def coerced_setitem_other)
  have s3: "fill_quantity L ?d2 = Inr ?d3"
    unfolding Q'_def
    by (rule fill_quantity_eq) (auto simp: getitem_setitem Q_def dest: coerced_cells)
  have s4: "fill_price ?d3 = Inr (setitem ?d3 ''price'' P')"
    unfolding P'_def
    by (rule fill_price_eq) (auto simp: getitem_setitem P_def dest: coerced_cells)
  show ?thesis
    by (simp add: handle_missing_values_steps_def s1 s2 s3 s4)
qed

lemma handle_missing_values_eq:
  fixes L :: textlib and df :: dataframe
  defines "P \<equiv> coerced L df ''price'' True"
    and "Q \<equiv> coerced L df ''quantity'' False"
  shows "handle_missing_values L df =
         Inr (setitem (setitem (setitem (setitem df ''price'' P) ''quantity'' Q) ''quantity''
                \<lparr>sdtype = Int64,
                 svalues = map (\<lambda>c. case c of Float r \<Rightarrow> Integer (trunc r) | _ \<Rightarrow> Integer 1)
                             (svalues Q)\<rparr>)
              ''price''
                (P\<lparr>svalues :=
                    (case median (numbers P) of
                       Some m \<Rightarrow> map (\<lambda>c. if c = Missing then Float m else c) (svalues P)
                     | None \<Rightarrow> map (\<lambda>c. Float 0) (svalues P))\<rparr>))"
  unfolding handle_missing_values_def P_def Q_def
  by (simp add: in_place_handle_missing_values)






lemma wf_stock_example: "wf_frame stock_example"
  by (simp add: stock_example_def wf_frame_def column_names_def nrows_def)









lemma sort_example: "sort [4, 10 :: rat] = [4, 10]"
  by simp




lemma getitem_Inr_name: "getitem df c = Inr s \<Longrightarrow> c \<in> set (column_names df)"
  using getitem_Inl_iff[of df c "KeyError c"] by auto



lemma handle_missing_values_has_price:
  "handle_missing_values L df = Inr d \<Longrightarrow> ''price'' \<in> set (column_names d)"
  unfolding handle_missing_values_eq
  by (auto intro: getitem_Inr_name simp: getitem_setitem)



section \<open>Properties of \<^verbatim>\<open>remove_invalid_rows\<close>\<close>

lemma pick_Nil [simp]: "pick [] xs = []" "pick m [] = []"
  by (simp_all add: pick_def)

lemma pick_Cons [simp]: "pick (b # m) (x # xs) = (if b then x # pick m xs else pick m xs)"
  by (simp add: pick_def)

lemma pick_map_filter: "pick (map P xs) xs = filter P xs"
  by (induction xs) auto

lemma pick_map: "pick m (map f xs) = map f (pick m xs)"
  by (induction m xs rule: list_induct2') auto

lemma length_pick: "length m = length xs \<Longrightarrow> length (pick m xs) = length (filter id m)"
  by (induction m xs rule: list_induct2') auto

lemma length_pick_le: "length (pick m xs) \<le> length xs"
  by (induction m xs rule: list_induct2') auto

lemma pick_pick_cells:
  "length m = length xs \<Longrightarrow> length xs = length ys \<Longrightarrow>
   pick m (zip xs ys) = zip (pick m xs) (pick m ys)"
proof (induction m arbitrary: xs ys)
  case Nil
  then show ?case by simp
next
  case (Cons b m)
  then obtain x xs' y ys' where "xs = x # xs'" "ys = y # ys'"
    by (cases xs; cases ys) auto
  with Cons show ?case by auto
qed

lemma length_pick_cong:
  "length xs = length ys \<Longrightarrow> length (pick m xs) = length (pick m ys)"
proof (induction m arbitrary: xs ys)
  case Nil
  then show ?case by simp
next
  case (Cons b m)
  then show ?case by (cases xs; cases ys) auto
qed

lemma pick_as_nth: "pick m xs = map (nth xs) (pick m [0 ..< length xs])"
proof -
  have "pick m xs = pick m (map (nth xs) [0 ..< length xs])"
    by (simp add: map_nth)
  then show ?thesis by (simp only: pick_map)
qed

lemma nrows_bool_index: "nrows (bool_index df m) = length (pick m (index df))"
  by (simp add: nrows_def bool_index_def)

lemma column_names_bool_index [simp]: "column_names (bool_index df m) = column_names df"
  by (simp add: column_names_def bool_index_def case_prod_unfold comp_def)

lemma columns_bool_index:
  "columns (bool_index df m) = map (\<lambda>(n, s). (n, s\<lparr>svalues := pick m (svalues s)\<rparr>)) (columns df)"
  by (simp add: bool_index_def)

lemma wf_frame_bool_index:
  assumes "wf_frame df"
  shows "wf_frame (bool_index df m)"
proof -
  have "length (pick m (svalues s)) = length (pick m (index df))"
    if "(n, s) \<in> set (columns df)" for n s
    using assms that by (intro length_pick_cong) (auto simp: wf_frame_def list_all_iff nrows_def)
  then have "list_all (\<lambda>(n, s). length (svalues s) = nrows (bool_index df m))
               (columns (bool_index df m))"
    unfolding nrows_bool_index columns_bool_index by (auto simp: list_all_iff)
  then show ?thesis using assms by (simp add: wf_frame_def)
qed

lemma rows_bool_index:
  assumes "wf_frame df"
  shows "rows (bool_index df m) = pick m (rows df)"
proof -
  let ?n = "nrows df"
  let ?js = "pick m [0 ..< ?n]"
  have k: "nrows (bool_index df m) = length ?js"
    unfolding nrows_bool_index by (rule length_pick_cong) (simp add: nrows_def)
  have cell: "pick m (svalues s) ! i = svalues s ! (?js ! i)"
    if "(n, s) \<in> set (columns df)" and "i < length ?js" for n s i
  proof -
    have "length (svalues s) = ?n"
      using assms that(1) by (auto simp: wf_frame_def list_all_iff)
    then have "pick m (svalues s) = map (nth (svalues s)) ?js"
      using pick_as_nth[of m "svalues s"] by simp
    then show ?thesis using that(2) by simp
  qed
  have "row (bool_index df m) i = row df (?js ! i)" if "i < length ?js" for i
    using cell that by (auto simp: row_def columns_bool_index)
  then have "rows (bool_index df m) = map (\<lambda>i. row df (?js ! i)) [0 ..< length ?js]"
    by (simp add: rows_def k)
  also have "\<dots> = map (row df) (map (nth ?js) [0 ..< length ?js])"
    by simp
  also have "\<dots> = map (row df) ?js"
    by (simp only: map_nth)
  also have "\<dots> = pick m (rows df)"
    by (simp add: rows_def pick_map)
  finally show ?thesis .
qed

lemma getitem_bool_index:
  "getitem (bool_index df m) c =
     (case getitem df c of Inl e \<Rightarrow> Inl e | Inr s \<Rightarrow> Inr (s\<lparr>svalues := pick m (svalues s)\<rparr>))"
  by (simp add: getitem_def columns_bool_index map_of_map split: option.splits)

lemma rows_reset_index [simp]: "rows (reset_index df) = rows df"
  by (simp add: rows_def reset_index_def nrows_def row_def)

lemma row_cell:
  "map_of (row df i) c = map_option (\<lambda>s. svalues s ! i) (map_of (columns df) c)"
  by (simp add: row_def map_of_map)

lemma values_as_rows:
  assumes "wf_frame df" and "getitem df c = Inr s"
  shows "map Some (svalues s) = map (\<lambda>r. map_of r c) (rows df)"
proof -
  have len: "length (svalues s) = nrows df"
    using assms by (rule wf_frame_getitem_length)
  have "map_of (columns df) c = Some s"
    using assms(2) by (simp add: getitem_def split: option.splits)
  then have "map (\<lambda>r. map_of r c) (rows df) = map (\<lambda>i. Some (svalues s ! i)) [0 ..< nrows df]"
    by (simp add: rows_def row_cell comp_def)
  also have "\<dots> = map Some (map (nth (svalues s)) [0 ..< length (svalues s)])"
    by (simp add: len)
  finally show ?thesis by (simp only: map_nth)
qed

lemma series_map_rows:
  assumes "wf_frame df" and "getitem df c = Inr s"
  shows "map f (svalues s) = map (\<lambda>r. f (the (map_of r c))) (rows df)"
proof -
  have "map (f \<circ> the) (map Some (svalues s)) = map (f \<circ> the) (map (\<lambda>r. map_of r c) (rows df))"
    by (simp only: values_as_rows[OF assms])
  then show ?thesis by (simp add: comp_def)
qed

lemma rows_have_cell:
  assumes "wf_frame df" and "getitem df c = Inr s" and "r \<in> set (rows df)"
  shows "\<exists>x. map_of r c = Some x"
proof -
  have "map_of r c \<in> set (map (\<lambda>r. map_of r c) (rows df))"
    using assms(3) by simp
  then have "map_of r c \<in> set (map Some (svalues s))"
    by (simp only: values_as_rows[OF assms(1,2)])
  then show ?thesis by auto
qed

lemma rows_lack_cell:
  assumes "c \<notin> set (column_names df)" and "r \<in> set (rows df)"
  shows "map_of r c = None"
proof -
  have "map_of (columns df) c = None"
    using assms(1) by (simp add: column_names_def map_of_eq_None_iff)
  then show ?thesis using assms(2) by (auto simp: rows_def row_cell)
qed

lemma mask_and_map: "mask_and (map P xs) (map Q xs) = map (\<lambda>x. P x \<and> Q x) xs"
  by (induction xs) (auto simp: mask_and_def)

lemma positive_Inr: "positive c = Inr b \<Longrightarrow> b = cell_positive c"
  by (cases c) auto

lemma collect_positive:
  "collect (map positive cs) = Inr bs \<Longrightarrow> bs = map cell_positive cs"
proof (induction cs arbitrary: bs)
  case Nil
  then show ?case by simp
next
  case (Cons c cs)
  then show ?case
    by (auto split: sum.splits dest: positive_Inr)
qed

lemma gt_zero_Inr: "gt_zero s = Inr bs \<Longrightarrow> bs = map cell_positive (svalues s)"
  by (simp add: gt_zero_def collect_positive)

lemma product_mask:
  "str_strip pr = Inr st \<Longrightarrow>
   mask_and (mask_not (isna pr)) (ne_empty st) = map product_present (svalues pr)"
proof -
  assume "str_strip pr = Inr st"
  then have st: "svalues st = map str_strip_cell (svalues pr)"
    by (auto simp: str_strip_def split: if_splits)
  have "(c \<noteq> Missing \<and> str_strip_cell c \<noteq> Text []) = product_present c" for c
    by (cases c) auto
  then have "map (\<lambda>c. c \<noteq> Missing \<and> str_strip_cell c \<noteq> Text []) (svalues pr) =
             map product_present (svalues pr)"
    by simp
  moreover have "mask_and (mask_not (isna pr)) (ne_empty st) =
                 map (\<lambda>c. c \<noteq> Missing \<and> str_strip_cell c \<noteq> Text []) (svalues pr)"
    using mask_and_map[of "\<lambda>c. c \<noteq> Missing" "svalues pr" "\<lambda>c. str_strip_cell c \<noteq> Text []"]
    by (simp add: mask_not_def isna_def ne_empty_def st comp_def)
  ultimately show ?thesis by simp
qed

lemma rows_bool_index_two:
  assumes "wf_frame d" and "getitem d c1 = Inr s1" and "getitem d c2 = Inr s2"
  shows "rows (bool_index d (mask_and (map f (svalues s1)) (map g (svalues s2)))) =
         filter (\<lambda>r. f (the (map_of r c1)) \<and> g (the (map_of r c2))) (rows d)"
proof -
  have "mask_and (map f (svalues s1)) (map g (svalues s2)) =
        map (\<lambda>r. f (the (map_of r c1)) \<and> g (the (map_of r c2))) (rows d)"
    unfolding series_map_rows[OF assms(1,2)] series_map_rows[OF assms(1,3)]
    by (rule mask_and_map)
  then show ?thesis
    by (simp add: rows_bool_index[OF assms(1)] pick_map_filter)
qed

lemma rows_bool_index_one:
  assumes "wf_frame d" and "getitem d c = Inr s"
  shows "rows (bool_index d (map f (svalues s))) = filter (\<lambda>r. f (the (map_of r c))) (rows d)"
  unfolding series_map_rows[OF assms]
  by (simp add: rows_bool_index[OF assms(1)] pick_map_filter)

lemma numbers_valid_cells:
  assumes "map_of r ''price'' = Some p" and "map_of r ''quantity'' = Some q"
  shows "numbers_valid r = (cell_positive p \<and> cell_positive q)"
  using assms by (simp add: numbers_valid_def)

lemma remove_invalid_rows_stages:
  assumes wf: "wf_frame df" and r: "remove_invalid_rows df = Inr out"
  shows "\<exists>d2. wf_frame d2 \<and> column_names d2 = column_names df \<and>
           rows d2 = filter numbers_valid (rows df) \<and>
           (if ''product'' \<in> set (column_names df)
            then \<exists>pr st. getitem d2 ''product'' = Inr pr \<and> str_strip pr = Inr st \<and>
                   out = reset_index (bool_index d2 (map product_present (svalues pr)))
            else out = reset_index d2)"
proof -
  from r obtain p q where p: "getitem df ''price'' = Inr p" and q: "getitem df ''quantity'' = Inr q"
    by (auto simp: remove_invalid_rows_def and_then_eq_Inr)
  define d1 where "d1 = bool_index df (mask_and (notna p) (notna q))"
  have wf1: "wf_frame d1" unfolding d1_def using wf by (rule wf_frame_bool_index)
  define p1 where "p1 = p\<lparr>svalues := pick (mask_and (notna p) (notna q)) (svalues p)\<rparr>"
  define q1 where "q1 = q\<lparr>svalues := pick (mask_and (notna p) (notna q)) (svalues q)\<rparr>"
  have p1: "getitem d1 ''price'' = Inr p1" and q1: "getitem d1 ''quantity'' = Inr q1"
    by (simp_all add: d1_def p1_def q1_def getitem_bool_index p q)
  from r obtain pm qm where pm: "gt_zero p1 = Inr pm" and qm: "gt_zero q1 = Inr qm"
    and rest: "and_then
       (if ''product'' \<in> set (column_names (bool_index d1 (mask_and pm qm)))
        then and_then (getitem (bool_index d1 (mask_and pm qm)) ''product'') (\<lambda>pr.
             and_then (str_strip pr) (\<lambda>stripped.
               Inr (bool_index (bool_index d1 (mask_and pm qm))
                      (mask_and (mask_not (isna pr)) (ne_empty stripped)))))
        else Inr (bool_index d1 (mask_and pm qm)))
       (\<lambda>df. Inr (reset_index df)) = Inr out"
    unfolding remove_invalid_rows_def Let_def p q and_then_Inr d1_def[symmetric] p1 q1
    by (auto simp: and_then_eq_Inr)
  define d2 where "d2 = bool_index d1 (mask_and pm qm)"
  have wf2: "wf_frame d2" unfolding d2_def using wf1 by (rule wf_frame_bool_index)
  have names: "column_names d2 = column_names df"
    by (simp add: d2_def d1_def)
  have rows1: "rows d1 = filter (\<lambda>r. the (map_of r ''price'') \<noteq> Missing \<and>
                                   the (map_of r ''quantity'') \<noteq> Missing) (rows df)"
    unfolding d1_def notna_def by (rule rows_bool_index_two[OF wf p q])
  have "rows d2 = filter (\<lambda>r. cell_positive (the (map_of r ''price'')) \<and>
                                cell_positive (the (map_of r ''quantity''))) (rows d1)"
    unfolding d2_def gt_zero_Inr[OF pm] gt_zero_Inr[OF qm]
    by (rule rows_bool_index_two[OF wf1 p1 q1])
  also have "\<dots> = filter numbers_valid (rows df)"
    unfolding rows1 filter_filter
  proof (rule filter_cong[OF refl])
    fix r assume "r \<in> set (rows df)"
    then obtain x y where xy: "map_of r ''price'' = Some x" "map_of r ''quantity'' = Some y"
      using rows_have_cell[OF wf p] rows_have_cell[OF wf q] by blast
    have "cell_positive c \<Longrightarrow> c \<noteq> Missing" for c by auto
    then show "((the (map_of r ''price'') \<noteq> Missing \<and> the (map_of r ''quantity'') \<noteq> Missing) \<and>
           cell_positive (the (map_of r ''price'')) \<and>
           cell_positive (the (map_of r ''quantity''))) = numbers_valid r"
      by (auto simp: xy numbers_valid_cells[OF xy])
  qed
  finally have rows2: "rows d2 = filter numbers_valid (rows df)" .
  have branch: "if ''product'' \<in> set (column_names df)
            then \<exists>pr st. getitem d2 ''product'' = Inr pr \<and> str_strip pr = Inr st \<and>
                   out = reset_index (bool_index d2 (map product_present (svalues pr)))
            else out = reset_index d2"
  proof (cases "''product'' \<in> set (column_names df)")
    case True
    with rest obtain pr st where pr: "getitem d2 ''product'' = Inr pr"
      and st: "str_strip pr = Inr st"
      and o: "out = reset_index (bool_index d2 (mask_and (mask_not (isna pr)) (ne_empty st)))"
      unfolding d2_def[symmetric] names by (auto simp: and_then_eq_Inr)
    show ?thesis using True pr st o by (auto simp: product_mask[OF st])
  next
    case False
    with rest show ?thesis
      unfolding d2_def[symmetric] names by (auto simp: and_then_eq_Inr)
  qed
  show ?thesis using wf2 names rows2 branch by blast
qed

lemma nrows_reset_index [simp]: "nrows (reset_index d) = nrows d"
  by (simp add: reset_index_def nrows_def)

lemma column_names_reset_index [simp]: "column_names (reset_index d) = column_names d"
  by (simp add: reset_index_def column_names_def)

lemma wf_frame_reset_index: "wf_frame d \<Longrightarrow> wf_frame (reset_index d)"
  unfolding wf_frame_def nrows_reset_index column_names_reset_index
  by (simp add: reset_index_def)

lemma index_reset_index: "index (reset_index d) = map int [0 ..< nrows (reset_index d)]"
  unfolding nrows_reset_index by (simp add: reset_index_def)

lemma remove_invalid_rows_result:
  assumes wf: "wf_frame df" and r: "remove_invalid_rows df = Inr out"
  shows "rows out = filter valid_row (rows df)"
    and "wf_frame out"
    and "column_names out = column_names df"
    and "index out = map int [0 ..< nrows out]"
proof -
  from remove_invalid_rows_stages[OF wf r] obtain d2 where
    wf2: "wf_frame d2" and names: "column_names d2 = column_names df"
    and rows2: "rows d2 = filter numbers_valid (rows df)"
    and branch: "if ''product'' \<in> set (column_names df)
            then \<exists>pr st. getitem d2 ''product'' = Inr pr \<and> str_strip pr = Inr st \<and>
                   out = reset_index (bool_index d2 (map product_present (svalues pr)))
            else out = reset_index d2"
    by blast
  have all: "rows out = filter valid_row (rows df) \<and> wf_frame out \<and>
             column_names out = column_names df \<and> index out = map int [0 ..< nrows out]"
  proof (cases "''product'' \<in> set (column_names df)")
    case True
    with branch obtain pr where pr: "getitem d2 ''product'' = Inr pr"
      and o: "out = reset_index (bool_index d2 (map product_present (svalues pr)))"
      by auto
    from True obtain s where s: "getitem df ''product'' = Inr s"
      using getitem_present by blast
    have "rows out = filter (\<lambda>r. product_present (the (map_of r ''product''))) (rows d2)"
      unfolding o rows_reset_index by (rule rows_bool_index_one[OF wf2 pr])
    also have "\<dots> = filter valid_row (rows df)"
      unfolding rows2 filter_filter
    proof (rule filter_cong[OF refl])
      fix r assume "r \<in> set (rows df)"
      then obtain c where "map_of r ''product'' = Some c"
        using rows_have_cell[OF wf s] by blast
      then show "(numbers_valid r \<and> product_present (the (map_of r ''product''))) = valid_row r"
        by (simp add: valid_row_def product_valid_def)
    qed
    finally have "rows out = filter valid_row (rows df)" .
    moreover have "wf_frame out"
      unfolding o by (intro wf_frame_reset_index wf_frame_bool_index wf2)
    moreover have "column_names out = column_names df"
      unfolding o by (simp add: names)
    moreover have "index out = map int [0 ..< nrows out]"
      unfolding o by (rule index_reset_index)
    ultimately show ?thesis by blast
  next
    case False
    with branch have o: "out = reset_index d2" by simp
    have "filter numbers_valid (rows df) = filter valid_row (rows df)"
    proof (rule filter_cong[OF refl])
      fix r assume "r \<in> set (rows df)"
      then have "map_of r ''product'' = None"
        using False by (intro rows_lack_cell)
      then show "numbers_valid r = valid_row r"
        by (simp add: valid_row_def product_valid_def)
    qed
    then have "rows out = filter valid_row (rows df)"
      unfolding o rows_reset_index rows2 .
    moreover have "wf_frame out"
      unfolding o by (intro wf_frame_reset_index wf2)
    moreover have "column_names out = column_names df"
      unfolding o by (simp add: names)
    moreover have "index out = map int [0 ..< nrows out]"
      unfolding o by (rule index_reset_index)
    ultimately show ?thesis by blast
  qed
  show "rows out = filter valid_row (rows df)" using all by blast
  show "wf_frame out" using all by blast
  show "column_names out = column_names df" using all by blast
  show "index out = map int [0 ..< nrows out]" using all by blast
qed

lemma set_pick_subset: "set (pick m xs) \<subseteq> set xs"
  by (auto simp: pick_def dest: set_zip_rightD)

lemma collect_Inl_positive:
  "collect (map positive cs) = Inl e \<Longrightarrow> e = TypeError \<and> list_ex is_text cs"
proof (induction cs)
  case Nil
  then show ?case by simp
next
  case (Cons c cs)
  then show ?case by (cases c) (auto split: sum.splits)
qed

lemma gt_zero_Inl: "gt_zero s = Inl e \<Longrightarrow> e = TypeError \<and> list_ex is_text (svalues s)"
  by (simp add: gt_zero_def collect_Inl_positive)

lemma gt_zero_returns:
  "\<not> list_ex is_text (svalues s) \<Longrightarrow> \<exists>bs. gt_zero s = Inr bs"
  using gt_zero_Inl[of s] by (cases "gt_zero s") auto

lemma str_strip_Inl: "str_strip s = Inl e \<Longrightarrow> e = AttributeError"
  by (auto simp: str_strip_def split: if_splits)

lemma remove_invalid_rows_unfold:
  assumes "getitem df ''price'' = Inr p" and "getitem df ''quantity'' = Inr q"
  shows "remove_invalid_rows df =
     (let m1 = mask_and (notna p) (notna q);
          d1 = bool_index df m1
      in and_then (gt_zero (p\<lparr>svalues := pick m1 (svalues p)\<rparr>)) (\<lambda>p_pos.
         and_then (gt_zero (q\<lparr>svalues := pick m1 (svalues q)\<rparr>)) (\<lambda>q_pos.
         let d2 = bool_index d1 (mask_and p_pos q_pos) in
         and_then
           (if ''product'' \<in> set (column_names df)
            then and_then (getitem d2 ''product'') (\<lambda>pr.
                 and_then (str_strip pr) (\<lambda>stripped.
                   Inr (bool_index d2 (mask_and (mask_not (isna pr)) (ne_empty stripped)))))
            else Inr d2)
           (\<lambda>d. Inr (reset_index d)))))"
  by (simp add: remove_invalid_rows_def assms getitem_bool_index Let_def)

lemma getitem_bool_index_twice:
  assumes "getitem df c = Inr s"
  shows "getitem (bool_index (bool_index df m1) m2) c =
         Inr (s\<lparr>svalues := pick m2 (pick m1 (svalues s))\<rparr>)"
  by (simp add: getitem_bool_index assms)

lemma remove_invalid_rows_no_lookup_error:
  assumes "''price'' \<in> set (column_names df)" and "''quantity'' \<in> set (column_names df)"
  shows "remove_invalid_rows df \<noteq> Inl (KeyError c)"
proof -
  from assms obtain p q where p: "getitem df ''price'' = Inr p" and q: "getitem df ''quantity'' = Inr q"
    using getitem_present by blast
  show ?thesis
  proof (cases "''product'' \<in> set (column_names df)")
    case True
    then obtain s where s: "getitem df ''product'' = Inr s"
      using getitem_present by blast
    show ?thesis
      unfolding remove_invalid_rows_unfold[OF p q] Let_def
      using True
      by (auto simp: and_then_def getitem_bool_index s split: sum.splits
          dest: gt_zero_Inl str_strip_Inl)
  next
    case False
    then show ?thesis
      unfolding remove_invalid_rows_unfold[OF p q] Let_def
      by (auto simp: and_then_def split: sum.splits dest: gt_zero_Inl)
  qed
qed

lemma no_text_pick: "\<not> list_ex is_text xs \<Longrightarrow> \<not> list_ex is_text (pick m xs)"
  using set_pick_subset[of m xs] by (auto simp: list_ex_iff)

lemma str_strip_textual:
  assumes "sdtype s = Object" and "list_all (\<lambda>c. is_text c \<or> c = Missing) (svalues s)"
  shows "\<exists>st. str_strip s = Inr st"
proof -
  have "\<not> list_ex (\<lambda>c. number_of c \<noteq> None) (svalues s)"
    using assms(2) by (auto simp: list_ex_iff list_all_iff elim!: is_text.elims)
  then show ?thesis using assms(1) by (simp add: str_strip_def)
qed

lemma textual_pick:
  "list_all (\<lambda>c. is_text c \<or> c = Missing) xs \<Longrightarrow>
   list_all (\<lambda>c. is_text c \<or> c = Missing) (pick m xs)"
  using set_pick_subset[of m xs] by (auto simp: list_all_iff)

lemma remove_invalid_rows_returns:
  assumes p: "getitem df ''price'' = Inr p" and q: "getitem df ''quantity'' = Inr q"
    and np: "\<not> list_ex is_text (svalues p)" and nq: "\<not> list_ex is_text (svalues q)"
    and prod: "\<And>s. getitem df ''product'' = Inr s \<Longrightarrow>
                 sdtype s = Object \<and> list_all (\<lambda>c. is_text c \<or> c = Missing) (svalues s)"
  shows "\<exists>out. remove_invalid_rows df = Inr out"
proof -
  let ?m1 = "mask_and (notna p) (notna q)"
  obtain pm where pm: "gt_zero (p\<lparr>svalues := pick ?m1 (svalues p)\<rparr>) = Inr pm"
    using gt_zero_returns[of "p\<lparr>svalues := pick ?m1 (svalues p)\<rparr>"] no_text_pick[OF np]
    by auto
  obtain qm where qm: "gt_zero (q\<lparr>svalues := pick ?m1 (svalues q)\<rparr>) = Inr qm"
    using gt_zero_returns[of "q\<lparr>svalues := pick ?m1 (svalues q)\<rparr>"] no_text_pick[OF nq]
    by auto
  show ?thesis
  proof (cases "''product'' \<in> set (column_names df)")
    case True
    then obtain s where s: "getitem df ''product'' = Inr s"
      using getitem_present by blast
    let ?pr = "s\<lparr>svalues := pick (mask_and pm qm) (pick ?m1 (svalues s))\<rparr>"
    have "sdtype ?pr = Object"
      and "list_all (\<lambda>c. is_text c \<or> c = Missing) (svalues ?pr)"
      using prod[OF s] by (simp_all add: textual_pick)
    then obtain st where st: "str_strip ?pr = Inr st"
      using str_strip_textual by blast
    show ?thesis
      unfolding remove_invalid_rows_unfold[OF p q] Let_def
      using True by (simp add: pm qm getitem_bool_index s st)
  next
    case False
    then show ?thesis
      unfolding remove_invalid_rows_unfold[OF p q] Let_def
      by (simp add: pm qm)
  qed
qed

lemma remove_invalid_rows_missing_column:
  "''price'' \<notin> set (column_names df) \<Longrightarrow> remove_invalid_rows df = Inl (KeyError ''price'')"
  "''price'' \<in> set (column_names df) \<Longrightarrow> ''quantity'' \<notin> set (column_names df) \<Longrightarrow>
     remove_invalid_rows df = Inl (KeyError ''quantity'')"
proof -
  show "remove_invalid_rows df = Inl (KeyError ''price'')"
    if "''price'' \<notin> set (column_names df)"
    using that by (simp add: remove_invalid_rows_def getitem_absent)
  show "remove_invalid_rows df = Inl (KeyError ''quantity'')"
    if a: "''price'' \<in> set (column_names df)" and b: "''quantity'' \<notin> set (column_names df)"
  proof -
    obtain p where "getitem df ''price'' = Inr p"
      using a getitem_present by blast
    then show ?thesis using b by (simp add: remove_invalid_rows_def getitem_absent)
  qed
qed

section \<open>Evaluation on example tables and the claims about \<^verbatim>\<open>remove_invalid_rows\<close>\<close>

lemma cleaned_example_result:
  "remove_invalid_rows cleaned_example =
     Inr \<lparr>index = [0, 1],
          columns =
            [(''product'', \<lparr>sdtype = Object, svalues = [Text ''Pen'', Text ''Nib'']\<rparr>),
             (''price'', \<lparr>sdtype = Float64, svalues = [Float 2, Float 5]\<rparr>),
             (''quantity'', \<lparr>sdtype = Int64, svalues = [Integer 1, Integer 6]\<rparr>)]\<rparr>"
  by code_simp

lemma numbers_example_result:
  "remove_invalid_rows numbers_example =
     Inr \<lparr>index = [0],
          columns =
            [(''price'', \<lparr>sdtype = Float64, svalues = [Float 1]\<rparr>),
             (''quantity'', \<lparr>sdtype = Int64, svalues = [Integer 1]\<rparr>)]\<rparr>"
  by code_simp

lemma stock_example_result: "remove_invalid_rows stock_example = Inl TypeError"
  by code_simp

lemma unpriced_example_result: "remove_invalid_rows unpriced_example = Inl (KeyError ''price'')"
  by code_simp

lemma sales_names:
  "canonical_name ''Product'' = ''product''"
  "canonical_name ''Price'' = ''price''"
  "canonical_name ''Quantity'' = ''quantity''"
  by code_simp+

lemma sales_texts:
  "map strip ['' Good'', ''BadPrice'', ''NoQty''] = [''Good'', ''BadPrice'', ''NoQty'']"
  "map strip [''$10.00'', ''-5.00'', ''12.00''] = [''$10.00'', ''-5.00'', ''12.00'']"
  "map strip [''2'', ''1'', ''''] = [''2'', ''1'', '''']"
  "map remove_noise [''$10.00'', ''-5.00'', ''12.00''] = [''10.00'', ''-5.00'', ''12.00'']"
  by code_simp+

lemma sales_numbers:
  "decimal ''10.00'' = Some 10" "decimal ''-5.00'' = Some (- 5)" "decimal ''12.00'' = Some 12"
  "decimal ''2'' = Some 2" "decimal ''1'' = Some 1"
  by code_simp+

lemma sales_example_cleaned:
  "clean_column_names L sales_example =
     Inr \<lparr>index = [0, 1, 2],
          columns =
            [(''product'',
              \<lparr>sdtype = Object, svalues = [Text ''Good'', Text ''BadPrice'', Text ''NoQty'']\<rparr>),
             (''price'',
              \<lparr>sdtype = Object, svalues = [Text ''$10.00'', Text ''-5.00'', Text ''12.00'']\<rparr>),
             (''quantity'',
              \<lparr>sdtype = Object, svalues = [Text ''2'', Text ''1'', Text '''']\<rparr>)]\<rparr>"
  using sales_texts(1-3)
  by (simp add: clean_column_names_eq sales_example_def column_names_def sales_names)

lemma sales_example_imputed:
  "handle_missing_values (L\<lparr>to_float := decimal\<rparr>)
     \<lparr>index = [0, 1, 2],
      columns =
        [(''product'',
          \<lparr>sdtype = Object, svalues = [Text ''Good'', Text ''BadPrice'', Text ''NoQty'']\<rparr>),
         (''price'',
          \<lparr>sdtype = Object, svalues = [Text ''$10.00'', Text ''-5.00'', Text ''12.00'']\<rparr>),
         (''quantity'',
          \<lparr>sdtype = Object, svalues = [Text ''2'', Text ''1'', Text '''']\<rparr>)]\<rparr> =
   Inr \<lparr>index = [0, 1, 2],
        columns =
          [(''product'',
            \<lparr>sdtype = Object, svalues = [Text ''Good'', Text ''BadPrice'', Text ''NoQty'']\<rparr>),
           (''price'', \<lparr>sdtype = Float64, svalues = [Float 10, Float (- 5), Float 12]\<rparr>),
           (''quantity'', \<lparr>sdtype = Int64, svalues = [Integer 2, Integer 1, Integer 1]\<rparr>)]\<rparr>"
proof -
  let ?d = "\<lparr>index = [0, 1, 2],
      columns =
        [(''product'',
          \<lparr>sdtype = Object, svalues = [Text ''Good'', Text ''BadPrice'', Text ''NoQty'']\<rparr>),
         (''price'',
          \<lparr>sdtype = Object, svalues = [Text ''$10.00'', Text ''-5.00'', Text ''12.00'']\<rparr>),
         (''quantity'',
          \<lparr>sdtype = Object, svalues = [Text ''2'', Text ''1'', Text '''']\<rparr>)]\<rparr>"
  let ?L = "L\<lparr>to_float := decimal\<rparr>"
  have P: "coerced ?L ?d ''price'' True =
           \<lparr>sdtype = Float64, svalues = [Float 10, Float (- 5), Float 12]\<rparr>"
    using sales_texts(2,4)
    by (simp add: coerced_def getitem_def to_numeric_clean_def astype_str_def
        replace_sentinels_def sentinels_def to_numeric_def numeric_cell_def sales_numbers Let_def)
  have Q: "coerced ?L ?d ''quantity'' False =
           \<lparr>sdtype = Float64, svalues = [Float 2, Float 1, Missing]\<rparr>"
    using sales_texts(3)
    by (simp add: coerced_def getitem_def to_numeric_clean_def astype_str_def
        replace_sentinels_def sentinels_def to_numeric_def numeric_cell_def sales_numbers Let_def)
  have t: "trunc 2 = 2" "trunc 1 = 1" by code_simp+
  have m: "median [10, - 5, 12] = Some 10" by code_simp
  show ?thesis
    unfolding handle_missing_values_eq P Q
    by (simp add: setitem_def column_names_def numbers_def List.map_filter_simps t m)
qed

lemma sales_example_filtered:
  "remove_invalid_rows
     \<lparr>index = [0, 1, 2],
      columns =
        [(''product'',
          \<lparr>sdtype = Object, svalues = [Text ''Good'', Text ''BadPrice'', Text ''NoQty'']\<rparr>),
         (''price'', \<lparr>sdtype = Float64, svalues = [Float 10, Float (- 5), Float 12]\<rparr>),
         (''quantity'', \<lparr>sdtype = Int64, svalues = [Integer 2, Integer 1, Integer 1]\<rparr>)]\<rparr> =
   Inr \<lparr>index = [0, 1],
        columns =
          [(''product'', \<lparr>sdtype = Object, svalues = [Text ''Good'', Text ''NoQty'']\<rparr>),
           (''price'', \<lparr>sdtype = Float64, svalues = [Float 10, Float 12]\<rparr>),
           (''quantity'', \<lparr>sdtype = Int64, svalues = [Integer 2, Integer 1]\<rparr>)]\<rparr>"
  by code_simp

text \<open>
  Claim C5.  On the table with the rows (\<^verbatim>\<open>" Good"\<close>, \<^verbatim>\<open>"$10.00"\<close>, \<^verbatim>\<open>"2"\<close>),
  (\<^verbatim>\<open>"BadPrice"\<close>, \<^verbatim>\<open>"-5.00"\<close>, \<^verbatim>\<open>"1"\<close>) and (\<^verbatim>\<open>"NoQty"\<close>, \<^verbatim>\<open>"12.00"\<close>,
  \<^verbatim>\<open>""\<close>) under the columns Product, Price and Quantity, the three stages in
  sequence return exactly two rows: Good with price 10 and quantity 2, and NoQty with
  price 12 and the filled quantity 1.  The row BadPrice is gone.
\<close>

theorem pipeline_sales_example:
  "pipeline (L\<lparr>to_float := decimal\<rparr>) sales_example =
     Inr \<lparr>index = [0, 1],
          columns =
            [(''product'', \<lparr>sdtype = Object, svalues = [Text ''Good'', Text ''NoQty'']\<rparr>),
             (''price'', \<lparr>sdtype = Float64, svalues = [Float 10, Float 12]\<rparr>),
             (''quantity'', \<lparr>sdtype = Int64, svalues = [Integer 2, Integer 1]\<rparr>)]\<rparr>"
  unfolding pipeline_def
  by (simp add: sales_example_cleaned sales_example_imputed sales_example_filtered)

theorem pipeline_sales_example_witness:
  "\<forall>L. \<exists>out. pipeline (L\<lparr>to_float := decimal\<rparr>) sales_example = Inr out \<and>
          nrows out = 2 \<and> column_names out = [''product'', ''price'', ''quantity'']"
proof
  fix L :: textlib
  show "\<exists>out. pipeline (L\<lparr>to_float := decimal\<rparr>) sales_example = Inr out \<and>
          nrows out = 2 \<and> column_names out = [''product'', ''price'', ''quantity'']"
    using pipeline_sales_example[of L] by (simp add: nrows_def column_names_def)
qed

lemma length_rows [simp]: "length (rows df) = nrows df"
  by (simp add: rows_def)

lemma numbers_valid_cells_exist:
  "numbers_valid r \<Longrightarrow>
   \<exists>p q. map_of r ''price'' = Some p \<and> map_of r ''quantity'' = Some q \<and>
         cell_positive p \<and> cell_positive q"
  by (auto simp: numbers_valid_def split: option.splits)

lemma product_valid_cell:
  "product_valid r \<Longrightarrow> map_of r ''product'' = Some c \<Longrightarrow>
   c \<noteq> Missing \<and> (\<forall>t. c = Text t \<longrightarrow> strip t \<noteq> [])"
  by (cases c) (auto simp: product_valid_def)

text \<open>
  Claim C1.  When \<^verbatim>\<open>remove_invalid_rows\<close> returns on a frame with distinct column
  names and full columns, every row of the result has a positive price and a positive
  quantity; the result has at most as many rows as the input; its rows are the valid
  rows of the input in their input order (a stable filter, hence a subsequence); and its
  row labels are 0, 1, 2, ... without a gap.
\<close>

theorem remove_invalid_rows_filters:
  assumes "wf_frame df" and "remove_invalid_rows df = Inr out"
  shows "(\<forall>r \<in> set (rows out).
            \<exists>p q. map_of r ''price'' = Some p \<and> map_of r ''quantity'' = Some q \<and>
                  cell_positive p \<and> cell_positive q) \<and>
         nrows out \<le> nrows df \<and>
         rows out = filter valid_row (rows df) \<and>
         subseq (rows out) (rows df) \<and>
         index out = map int [0 ..< nrows out] \<and>
         wf_frame out \<and> column_names out = column_names df"
proof -
  note res = remove_invalid_rows_result[OF assms]
  have f: "rows out = filter valid_row (rows df)" by (rule res(1))
  have "\<forall>r \<in> set (rows out).
            \<exists>p q. map_of r ''price'' = Some p \<and> map_of r ''quantity'' = Some q \<and>
                  cell_positive p \<and> cell_positive q"
    unfolding f by (auto simp: valid_row_def dest: numbers_valid_cells_exist)
  moreover have "length (rows out) \<le> length (rows df)"
    unfolding f by (rule length_filter_le)
  then have "nrows out \<le> nrows df" by simp
  moreover have "subseq (rows out) (rows df)"
    unfolding f by (rule subseq_filter_left)
  ultimately show ?thesis using res by blast
qed

text \<open>
  Claim C6.  When the frame has a product column, every row that
  \<^verbatim>\<open>remove_invalid_rows\<close> keeps has a product that is not missing and, being a text, is
  not empty once stripped.  When the frame has no product column, the rows kept are
  exactly those with a positive price and quantity: the product condition plays no part.
  In both cases the rows kept are those that satisfy the numeric and the product
  condition.
\<close>

theorem remove_invalid_rows_product:
  assumes "wf_frame df" and "remove_invalid_rows df = Inr out"
  shows "(''product'' \<in> set (column_names df) \<longrightarrow>
            (\<forall>r \<in> set (rows out).
               \<exists>c. map_of r ''product'' = Some c \<and> c \<noteq> Missing \<and>
                   (\<forall>t. c = Text t \<longrightarrow> strip t \<noteq> []))) \<and>
         (''product'' \<notin> set (column_names df) \<longrightarrow>
            rows out = filter numbers_valid (rows df)) \<and>
         rows out = filter (\<lambda>r. numbers_valid r \<and> product_valid r) (rows df)"
proof -
  have f: "rows out = filter valid_row (rows df)"
    by (rule remove_invalid_rows_result(1)[OF assms])
  have with_product: "\<exists>c. map_of r ''product'' = Some c \<and> c \<noteq> Missing \<and>
                   (\<forall>t. c = Text t \<longrightarrow> strip t \<noteq> [])"
    if a: "''product'' \<in> set (column_names df)" and b: "r \<in> set (rows out)" for r
  proof -
    obtain s where "getitem df ''product'' = Inr s"
      using a getitem_present by blast
    moreover have "r \<in> set (rows df)" and "product_valid r"
      using b unfolding f by (auto simp: valid_row_def)
    ultimately show ?thesis
      using rows_have_cell[OF assms(1)] product_valid_cell by blast
  qed
  have without: "rows out = filter numbers_valid (rows df)"
    if "''product'' \<notin> set (column_names df)"
    unfolding f
  proof (rule filter_cong[OF refl])
    fix r assume "r \<in> set (rows df)"
    then have "map_of r ''product'' = None"
      using that by (intro rows_lack_cell)
    then show "valid_row r = numbers_valid r"
      by (simp add: valid_row_def product_valid_def)
  qed
  have "rows out = filter (\<lambda>r. numbers_valid r \<and> product_valid r) (rows df)"
    unfolding f by (simp add: valid_row_def[abs_def])
  then show ?thesis using with_product without by blast
qed

text \<open>
  Claim C10, as amended.  \<^verbatim>\<open>remove_invalid_rows\<close> raises \<^verbatim>\<open>KeyError\<close> for
  \<^verbatim>\<open>price\<close> when the frame has no price column, and for \<^verbatim>\<open>quantity\<close> when it has a
  price column but no quantity column.  On a frame that has both it never raises a
  \<^verbatim>\<open>KeyError\<close>; and it returns a frame when, in addition, no price or quantity cell is
  a text and the product column, if there is one, is an \<^verbatim>\<open>object\<close> column of texts and
  missing values.
\<close>

theorem remove_invalid_rows_needs_columns:
  "(''price'' \<notin> set (column_names df) \<longrightarrow>
      remove_invalid_rows df = Inl (KeyError ''price'')) \<and>
   (''price'' \<in> set (column_names df) \<and> ''quantity'' \<notin> set (column_names df) \<longrightarrow>
      remove_invalid_rows df = Inl (KeyError ''quantity'')) \<and>
   (wf_frame df \<and>
    ''price'' \<in> set (column_names df) \<and> ''quantity'' \<in> set (column_names df) \<longrightarrow>
      (\<forall>c. remove_invalid_rows df \<noteq> Inl (KeyError c)) \<and>
      ((\<forall>c s. c \<in> {''price'', ''quantity''} \<and> getitem df c = Inr s \<longrightarrow>
           \<not> list_ex is_text (svalues s)) \<and>
       (\<forall>s. getitem df ''product'' = Inr s \<longrightarrow>
           sdtype s = Object \<and> list_all (\<lambda>c. is_text c \<or> c = Missing) (svalues s)) \<longrightarrow>
       (\<exists>out. remove_invalid_rows df = Inr out)))"
proof (intro conjI impI allI)
  assume "''price'' \<notin> set (column_names df)"
  then show "remove_invalid_rows df = Inl (KeyError ''price'')"
    by (rule remove_invalid_rows_missing_column(1))
next
  assume "''price'' \<in> set (column_names df) \<and> ''quantity'' \<notin> set (column_names df)"
  then show "remove_invalid_rows df = Inl (KeyError ''quantity'')"
    by (simp add: remove_invalid_rows_missing_column(2))
next
  fix c
  assume "wf_frame df \<and>
    ''price'' \<in> set (column_names df) \<and> ''quantity'' \<in> set (column_names df)"
  then show "remove_invalid_rows df \<noteq> Inl (KeyError c)"
    by (simp add: remove_invalid_rows_no_lookup_error)
next
  assume both: "wf_frame df \<and>
      ''price'' \<in> set (column_names df) \<and> ''quantity'' \<in> set (column_names df)"
    and ok: "(\<forall>c s. c \<in> {''price'', ''quantity''} \<and> getitem df c = Inr s \<longrightarrow>
           \<not> list_ex is_text (svalues s)) \<and>
       (\<forall>s. getitem df ''product'' = Inr s \<longrightarrow>
           sdtype s = Object \<and> list_all (\<lambda>c. is_text c \<or> c = Missing) (svalues s))"
  from both obtain p q where p: "getitem df ''price'' = Inr p"
    and q: "getitem df ''quantity'' = Inr q"
    using getitem_present by blast
  have np: "\<not> list_ex is_text (svalues p)" and nq: "\<not> list_ex is_text (svalues q)"
    using ok p q by blast+
  show "\<exists>out. remove_invalid_rows df = Inr out"
    using ok by (intro remove_invalid_rows_returns[OF p q np nq]) blast
qed

lemma wf_cleaned_example: "wf_frame cleaned_example"
  by (simp add: cleaned_example_def wf_frame_def column_names_def nrows_def)

lemma wf_numbers_example: "wf_frame numbers_example"
  by (simp add: numbers_example_def wf_frame_def column_names_def nrows_def)

lemma cleaned_example_rows:
  "rows \<lparr>index = [0, 1],
          columns =
            [(''product'', \<lparr>sdtype = Object, svalues = [Text ''Pen'', Text ''Nib'']\<rparr>),
             (''price'', \<lparr>sdtype = Float64, svalues = [Float 2, Float 5]\<rparr>),
             (''quantity'', \<lparr>sdtype = Int64, svalues = [Integer 1, Integer 6]\<rparr>)]\<rparr> =
   [[(''product'', Text ''Pen''), (''price'', Float 2), (''quantity'', Integer 1)],
    [(''product'', Text ''Nib''), (''price'', Float 5), (''quantity'', Integer 6)]]"
  by code_simp

lemma numbers_example_rows:
  "rows \<lparr>index = [0],
          columns =
            [(''price'', \<lparr>sdtype = Float64, svalues = [Float 1]\<rparr>),
             (''quantity'', \<lparr>sdtype = Int64, svalues = [Integer 1]\<rparr>)]\<rparr> =
   [[(''price'', Float 1), (''quantity'', Integer 1)]]"
  by code_simp

theorem remove_invalid_rows_filters_witness:
  "\<exists>out. remove_invalid_rows cleaned_example = Inr out \<and>
     filter valid_row (rows cleaned_example) =
       [[(''product'', Text ''Pen''), (''price'', Float 2), (''quantity'', Integer 1)],
        [(''product'', Text ''Nib''), (''price'', Float 5), (''quantity'', Integer 6)]] \<and>
     rows out = filter valid_row (rows cleaned_example) \<and>
     index out = [0, 1] \<and> nrows out = 2 \<and> nrows cleaned_example = 6"
  using remove_invalid_rows_filters[OF wf_cleaned_example cleaned_example_result]
    cleaned_example_rows
  by (simp add: cleaned_example_result nrows_def) (simp add: cleaned_example_def)

theorem remove_invalid_rows_product_witness:
  "(\<exists>out. remove_invalid_rows cleaned_example = Inr out \<and>
      rows out = filter (\<lambda>r. numbers_valid r \<and> product_valid r) (rows cleaned_example) \<and>
      rows out =
        [[(''product'', Text ''Pen''), (''price'', Float 2), (''quantity'', Integer 1)],
         [(''product'', Text ''Nib''), (''price'', Float 5), (''quantity'', Integer 6)]]) \<and>
   (\<exists>out. remove_invalid_rows numbers_example = Inr out \<and>
      rows out = filter numbers_valid (rows numbers_example) \<and>
      rows out = [[(''price'', Float 1), (''quantity'', Integer 1)]])"
proof (intro conjI)
  have "''product'' \<in> set (column_names cleaned_example)"
    by (simp add: cleaned_example_def column_names_def)
  then show "\<exists>out. remove_invalid_rows cleaned_example = Inr out \<and>
      rows out = filter (\<lambda>r. numbers_valid r \<and> product_valid r) (rows cleaned_example) \<and>
      rows out =
        [[(''product'', Text ''Pen''), (''price'', Float 2), (''quantity'', Integer 1)],
         [(''product'', Text ''Nib''), (''price'', Float 5), (''quantity'', Integer 6)]]"
    using remove_invalid_rows_product[OF wf_cleaned_example cleaned_example_result]
      cleaned_example_rows
    by (simp add: cleaned_example_result)
  have "''product'' \<notin> set (column_names numbers_example)"
    by (simp add: numbers_example_def column_names_def)
  then show "\<exists>out. remove_invalid_rows numbers_example = Inr out \<and>
      rows out = filter numbers_valid (rows numbers_example) \<and>
      rows out = [[(''price'', Float 1), (''quantity'', Integer 1)]]"
    using remove_invalid_rows_product[OF wf_numbers_example numbers_example_result]
      numbers_example_rows
    by (simp add: numbers_example_result)
qed

text \<open>
  The claim C10 as the specification states it fails: having both columns is not enough
  for \<^verbatim>\<open>remove_invalid_rows\<close> to return.  On a frame whose prices are still texts the
  comparison with zero raises \<^verbatim>\<open>TypeError\<close>.
\<close>

theorem remove_invalid_rows_text_price:
  "wf_frame stock_example \<and>
   ''price'' \<in> set (column_names stock_example) \<and>
   ''quantity'' \<in> set (column_names stock_example) \<and>
   remove_invalid_rows stock_example = Inl TypeError"
  by (simp add: wf_stock_example stock_example_result)
    (simp add: stock_example_def column_names_def)

theorem remove_invalid_rows_needs_columns_witness:
  "remove_invalid_rows unpriced_example = Inl (KeyError ''price'') \<and>
   remove_invalid_rows price_only_example = Inl (KeyError ''quantity'') \<and>
   (\<exists>out. remove_invalid_rows cleaned_example = Inr out) \<and>
   (\<forall>c. remove_invalid_rows stock_example \<noteq> Inl (KeyError c))"
proof (intro conjI)
  show "remove_invalid_rows unpriced_example = Inl (KeyError ''price'')"
    using remove_invalid_rows_needs_columns[of unpriced_example]
    by (simp add: unpriced_example_def column_names_def)
  show "remove_invalid_rows price_only_example = Inl (KeyError ''quantity'')"
    using remove_invalid_rows_needs_columns[of price_only_example]
    by (simp add: price_only_example_def column_names_def)
  have names: "wf_frame cleaned_example \<and>
               ''price'' \<in> set (column_names cleaned_example) \<and>
               ''quantity'' \<in> set (column_names cleaned_example)"
    using wf_cleaned_example by (simp add: cleaned_example_def column_names_def)
  have cols: "(\<forall>c s. c \<in> {''price'', ''quantity''} \<and> getitem cleaned_example c = Inr s \<longrightarrow>
           \<not> list_ex is_text (svalues s)) \<and>
       (\<forall>s. getitem cleaned_example ''product'' = Inr s \<longrightarrow>
           sdtype s = Object \<and> list_all (\<lambda>c. is_text c \<or> c = Missing) (svalues s))"
    by (auto simp: cleaned_example_def getitem_def)
  show "\<exists>out. remove_invalid_rows cleaned_example = Inr out"
    using remove_invalid_rows_needs_columns[of cleaned_example] names cols by blast
  have "wf_frame stock_example \<and>
        ''price'' \<in> set (column_names stock_example) \<and>
        ''quantity'' \<in> set (column_names stock_example)"
    using wf_stock_example by (simp add: stock_example_def column_names_def)
  then show "\<forall>c. remove_invalid_rows stock_example \<noteq> Inl (KeyError c)"
    using remove_invalid_rows_needs_columns[of stock_example] by blast
qed

end
